theory Spec2Isabelle
  imports Main "HOL-Library.Word"
begin


section \<open>JavaScript list and string helpers\<close>

text \<open>
  Strings are compared and concatenated by most of the code, and are then lists of
  characters; the README generator, which reads the UTF-16 code units of its strings,
  has a string type of its own. The helpers below are the array methods the sources call: \<open>Array.prototype.indexOf\<close>,
  the callbacks of \<open>filter\<close> and \<open>map\<close> that also receive the index (and the array),
  \<open>join\<close>, and the decimal rendering of a non-negative integer inside a template literal.
\<close>

fun indexOfFrom :: "'a list \<Rightarrow> 'a \<Rightarrow> nat \<Rightarrow> int" where
  "indexOfFrom [] x k = -1"
| "indexOfFrom (y # ys) x k = (if y = x then int k else indexOfFrom ys x (Suc k))"

definition indexOf :: "'a list \<Rightarrow> 'a \<Rightarrow> int" where
  "indexOf xs x = indexOfFrom xs x 0"

definition filterWithIndex :: "('a \<Rightarrow> nat \<Rightarrow> 'a list \<Rightarrow> bool) \<Rightarrow> 'a list \<Rightarrow> 'a list" where
  "filterWithIndex p xs = map fst (filter (\<lambda>(x, i). p x i xs) (zip xs [0..<length xs]))"

definition mapWithIndex :: "('a \<Rightarrow> nat \<Rightarrow> 'b) \<Rightarrow> 'a list \<Rightarrow> 'b list" where
  "mapWithIndex f xs = map (\<lambda>(x, i). f x i) (zip xs [0..<length xs])"

fun join :: "'a list \<Rightarrow> 'a list list \<Rightarrow> 'a list" where
  "join sep [] = []"
| "join sep [x] = x"
| "join sep (x # y # ys) = x @ sep @ join sep (y # ys)"

definition digitChar :: "nat \<Rightarrow> char" where
  "digitChar d = char_of (48 + d)"

fun showNat :: "nat \<Rightarrow> string" where
  "showNat n = (if n < 10 then [digitChar n] else showNat (n div 10) @ [digitChar (n mod 10)])"

declare showNat.simps [simp del]

text \<open>
  Values exchanged with the service. \<open>JUndefined\<close> is JavaScript's \<open>undefined\<close>.
\<close>

datatype json =
    JUndefined
  | JNull
  | JBool bool
  | JNum int
  | JStr string
  | JArr "json list"
  | JObj "(string \<times> json) list"

section \<open>Window handles of the operation history (actions.ts, updateScreenHistory)\<close>

record Operation =
  sequence :: nat
  windowHandle :: string
  screenDef :: string
  imageFilePath :: string
  keywordSet :: "string set"
  inputElements :: "json list"

text \<open>
  The client-side note object (class \<open>Note\<close>): the identifier is absent on the notes
  that the edit and move operations build.
\<close>

record Note =
  note_id :: "nat option"
  note_sequence :: nat
  note_value :: string
  note_details :: string
  note_imageFilePath :: string
  note_tags :: "string list option"

record OperationWithNotes =
  operation :: Operation
  intention :: "Note option"
  bugs :: "Note list option"
  notices :: "Note list option"

record WindowHandle =
  wh_text :: string
  wh_value :: string
  wh_available :: bool

text \<open>
  The first statements of the window computation in \<open>updateScreenHistory\<close>:
  the handles of the history in order, those whose first index is their own index,
  each labelled \<open>window\<close> followed by its one-based position.
\<close>

definition windowHandles :: "OperationWithNotes list \<Rightarrow> WindowHandle list" where
  "windowHandles history =
     mapWithIndex
       (\<lambda>wh index. \<lparr> wh_text = ''window'' @ showNat (index + 1), wh_value = wh, wh_available = False \<rparr>)
       (filterWithIndex (\<lambda>wh index array. indexOf array wh = int index)
          (map (\<lambda>operationWithNotes. windowHandle (operation operationWithNotes)) history))"


text \<open>
  The positions of a list that hold the first occurrence of their value, in increasing
  order; and a history of five operations in three windows.
\<close>

definition firstSeenIndices :: "'a list \<Rightarrow> nat list" where
  "firstSeenIndices hs = filter (\<lambda>i. \<forall>k<i. hs ! k \<noteq> hs ! i) [0..<length hs]"

definition sampleItem :: "nat \<Rightarrow> string \<Rightarrow> OperationWithNotes" where
  "sampleItem seq wh =
     \<lparr> operation = \<lparr> sequence = seq, windowHandle = wh, screenDef = ''Home'', imageFilePath = [],
                      keywordSet = {}, inputElements = [] \<rparr>,
       intention = None, bugs = None, notices = None \<rparr>"

definition sampleHistory :: "OperationWithNotes list" where
  "sampleHistory =
     [sampleItem 1 ''hA'', sampleItem 2 ''hB'', sampleItem 3 ''hA'', sampleItem 4 ''hC'',
      sampleItem 5 ''hB'']"

section \<open>README of the generated test scripts (JSDocReadmeGenerator)\<close>

text \<open>
  A JavaScript string is the sequence of its UTF-16 code units, and \<open>encodeURI\<close> reads
  them, so the strings of the generator are lists of 16-bit words. \<open>lit\<close> gives the code
  units of a literal of the source, whose characters are all ASCII.
\<close>

type_synonym jsstring = "16 word list"

definition lit :: "string \<Rightarrow> jsstring" where
  "lit s = map (\<lambda>c. of_nat (of_char c)) s"

text \<open>
  A code unit from \<open>D800\<close> to \<open>DBFF\<close> is a leading surrogate, one from \<open>DC00\<close> to \<open>DFFF\<close>
  a trailing surrogate; a leading one directly followed by a trailing one encodes one
  code point above \<open>FFFF\<close>.
\<close>

definition leadSurrogate :: "16 word \<Rightarrow> bool" where
  "leadSurrogate c = (0xD800 \<le> c \<and> c \<le> 0xDBFF)"

definition trailSurrogate :: "16 word \<Rightarrow> bool" where
  "trailSurrogate c = (0xDC00 \<le> c \<and> c \<le> 0xDFFF)"

text \<open>
  \<open>encodeURI\<close> keeps the letters, the digits, the reserved characters \<open>; / ? : @ & = + $ ,\<close>
  with \<open>#\<close>, and the marks \<open>- _ . ! ~ * ' ( )\<close>.
\<close>

definition uriUnescaped :: "16 word \<Rightarrow> bool" where
  "uriUnescaped c =
     (c \<in> set (lit ''ABCDEFGHIJKLMNOPQRSTUVWXYZabcdefghijklmnopqrstuvwxyz0123456789'')
      \<or> c \<in> set (lit '';/?:@&=+$,#'')
      \<or> c \<in> set (lit ''-_.!~*()'') \<or> c = 0x27)"

text \<open>
  Every other code point is written as its UTF-8 octets, each as a percent sign and two
  upper-case hexadecimal digits. A surrogate that is not part of a pair has no encoding:
  \<open>encodeURI\<close> throws a \<open>URIError\<close>, which is the result \<open>None\<close>.
\<close>

definition codePointOfPair :: "16 word \<Rightarrow> 16 word \<Rightarrow> nat" where
  "codePointOfPair c d = (unat c - 0xD800) * 0x400 + (unat d - 0xDC00) + 0x10000"

definition utf8 :: "nat \<Rightarrow> 8 word list" where
  "utf8 cp =
     (if cp < 0x80 then [of_nat cp]
      else if cp < 0x800 then [of_nat (0xC0 + cp div 0x40), of_nat (0x80 + cp mod 0x40)]
      else if cp < 0x10000
        then [of_nat (0xE0 + cp div 0x1000), of_nat (0x80 + cp div 0x40 mod 0x40),
              of_nat (0x80 + cp mod 0x40)]
      else [of_nat (0xF0 + cp div 0x40000), of_nat (0x80 + cp div 0x1000 mod 0x40),
            of_nat (0x80 + cp div 0x40 mod 0x40), of_nat (0x80 + cp mod 0x40)])"

definition hexDigit :: "nat \<Rightarrow> 16 word" where
  "hexDigit d = lit ''0123456789ABCDEF'' ! d"

definition percentOctet :: "8 word \<Rightarrow> jsstring" where
  "percentOctet octet = [0x25, hexDigit (unat octet div 16), hexDigit (unat octet mod 16)]"

definition escaped :: "nat \<Rightarrow> jsstring" where
  "escaped cp = concat (map percentOctet (utf8 cp))"

fun encodeURI :: "jsstring \<Rightarrow> jsstring option" where
  "encodeURI [] = Some []"
| "encodeURI [c] =
     (if uriUnescaped c then Some [c]
      else if leadSurrogate c \<or> trailSurrogate c then None
      else Some (escaped (unat c)))"
| "encodeURI (c # d # ds) =
     (if uriUnescaped c then map_option (\<lambda>r. c # r) (encodeURI (d # ds))
      else if leadSurrogate c
        then (if trailSurrogate d
              then map_option (\<lambda>r. escaped (codePointOfPair c d) @ r) (encodeURI ds)
              else None)
      else if trailSurrogate c then None
      else map_option (\<lambda>r. escaped (unat c) @ r) (encodeURI (d # ds)))"


text \<open>A string is well formed when it has no unpaired surrogate.\<close>

fun wellFormed :: "jsstring \<Rightarrow> bool" where
  "wellFormed [] = True"
| "wellFormed [c] = (\<not> leadSurrogate c \<and> \<not> trailSurrogate c)"
| "wellFormed (c # d # ds) =
     (if leadSurrogate c then trailSurrogate d \<and> wellFormed ds
      else \<not> trailSurrogate c \<and> wellFormed (d # ds))"

text \<open>
  The two tables. A row is \<open>None\<close> when the encoding of its link throws; \<open>map\<close> then
  throws as well, which \<open>those\<close> expresses.
\<close>

definition newline :: jsstring where
  "newline = [0x0A]"

definition dquote :: jsstring where
  "dquote = [0x22]"

definition testSuiteHeader :: jsstring where
  "testSuiteHeader =
     newline @ newline @ lit ''|#|name|top page url|'' @ newline @ lit ''|:--|:--|:--|'' @ newline"

definition testSuiteRow :: "jsstring \<times> jsstring \<Rightarrow> nat \<Rightarrow> jsstring option" where
  "testSuiteRow entry index =
     (case entry of (name, topPageUrl) \<Rightarrow>
        case Option.bind (encodeURI (lit ''./'' @ name @ lit ''.html'')) encodeURI of
          None \<Rightarrow> None
        | Some href \<Rightarrow>
            Some (lit ''|'' @ lit (showNat (index + 1)) @ lit ''|<a href='' @ dquote @ href @ dquote
                  @ lit ''>'' @ name @ lit ''</a>|'' @ topPageUrl @ lit ''|''))"

definition buildTestSuiteTable :: "(jsstring \<times> jsstring) list \<Rightarrow> jsstring option" where
  "buildTestSuiteTable testSuiteNameToTopPageUrl =
     (let header = testSuiteHeader
      in case those (mapWithIndex testSuiteRow testSuiteNameToTopPageUrl) of
           None \<Rightarrow> None
         | Some rowList \<Rightarrow>
             let rows = join newline rowList
             in Some (lit ''## Test suites'' @ (if length rows > 0 then header else []) @ rows))"

definition pageObjectHeader :: jsstring where
  "pageObjectHeader =
     newline @ newline @ lit ''|#|name|source|'' @ newline @ lit ''|:--|:--|:--|'' @ newline"

definition pageObjectRow :: "jsstring \<times> jsstring \<Rightarrow> nat \<Rightarrow> jsstring option" where
  "pageObjectRow entry index =
     (case entry of (name, alias) \<Rightarrow>
        case Option.bind (encodeURI (lit ''./'' @ alias @ lit ''.html'')) encodeURI of
          None \<Rightarrow> None
        | Some href \<Rightarrow>
            Some (lit ''|'' @ lit (showNat (index + 1)) @ lit ''|<a href='' @ dquote @ href @ dquote
                  @ lit ''>'' @ alias @ lit ''</a>|'' @ name @ lit ''|''))"

definition buildPageObjectTable :: "(jsstring \<times> jsstring) list \<Rightarrow> jsstring option" where
  "buildPageObjectTable pageObjectNameToAlias =
     (let header = pageObjectHeader
      in case those (mapWithIndex pageObjectRow pageObjectNameToAlias) of
           None \<Rightarrow> None
         | Some rowList \<Rightarrow>
             let rows = join newline rowList
             in Some (lit ''## Page objects'' @ (if length rows > 0 then header else []) @ rows))"

text \<open>
  The two maps are given by their entries in insertion order, which is the order in which
  a \<open>Map\<close> enumerates them. The template evaluates the test suite table first.
\<close>

definition generate ::
  "(jsstring \<times> jsstring) list \<Rightarrow> (jsstring \<times> jsstring) list \<Rightarrow> jsstring option" where
  "generate testSuiteNameToTopPageUrl pageObjectNameToAlias =
     (case buildTestSuiteTable testSuiteNameToTopPageUrl of
        None \<Rightarrow> None
      | Some testSuiteTable \<Rightarrow>
          (case buildPageObjectTable pageObjectNameToAlias of
             None \<Rightarrow> None
           | Some pageObjectTable \<Rightarrow>
               Some (testSuiteTable @ newline @ newline @ pageObjectTable @ newline)))"

text \<open>Two test suites, the second with a blank in its name.\<close>

definition sampleSuites :: "(jsstring \<times> jsstring) list" where
  "sampleSuites = [(lit ''login'', lit ''http://host/a''), (lit ''to do'', lit ''http://host/b'')]"


text \<open>A code unit that is not a surrogate.\<close>

definition plainUnit :: "16 word \<Rightarrow> bool" where
  "plainUnit c = (\<not> leadSurrogate c \<and> \<not> trailSurrogate c)"

section \<open>Repository classes over the REST client (TestTargetRepository, ProjectRepository)\<close>

record response =
  r_status :: nat
  r_data :: json

text \<open>
  The REST client of the repository classes: every method either throws (the left
  summand, of any type \<open>'e\<close>) or resolves to a response with its status code.
\<close>

record 'e RESTClient =
  httpGet :: "string \<Rightarrow> 'e + response"
  httpPost :: "string \<Rightarrow> json \<Rightarrow> 'e + response"
  httpPut :: "string \<Rightarrow> json \<Rightarrow> 'e + response"
  httpPatch :: "string \<Rightarrow> json \<Rightarrow> 'e + response"
  httpDelete :: "string \<Rightarrow> 'e + response"

text \<open>
  Modelled from the spec: \<open>Reply.ts\<close> (\<open>RepositoryAccessSuccess\<close>,
  \<open>createRepositoryAccessFailure\<close>, \<open>createConnectionRefusedFailure\<close>) is not among the
  sources. The spec's error taxonomy has \<open>BackendRejected\<close> for a non-success status of a
  well-formed request, here the failure built from the response, and \<open>BackendUnavailable\<close>
  for a transport failure, here the connection-refused failure. A success holds the
  object its constructor is handed: the literal \<open>{ data: response.data }\<close>, which
  \<open>dataOf\<close> builds, or, in \<open>deleteTestTarget\<close>, the body of the response itself.
\<close>

datatype RepositoryAccessResult =
    RepositoryAccessSuccess json
  | RepositoryAccessFailure response
  | ConnectionRefusedFailure

definition dataOf :: "response \<Rightarrow> json" where
  "dataOf response = JObj [(''data'', r_data response)]"

definition getTestTarget :: "'e RESTClient \<Rightarrow> string \<Rightarrow> RepositoryAccessResult" where
  "getTestTarget restClient ident =
     (case httpGet restClient (''/test-targets/'' @ ident) of
        Inl error \<Rightarrow> ConnectionRefusedFailure
      | Inr response \<Rightarrow>
          if r_status response \<noteq> 200 then RepositoryAccessFailure response
          else RepositoryAccessSuccess (dataOf response))"

definition postTestTarget :: "'e RESTClient \<Rightarrow> json \<Rightarrow> RepositoryAccessResult" where
  "postTestTarget restClient body =
     (case httpPost restClient ''/test-targets'' body of
        Inl error \<Rightarrow> ConnectionRefusedFailure
      | Inr response \<Rightarrow>
          if r_status response \<noteq> 200 then RepositoryAccessFailure response
          else RepositoryAccessSuccess (dataOf response))"

definition patchTestTarget :: "'e RESTClient \<Rightarrow> string \<Rightarrow> json \<Rightarrow> RepositoryAccessResult" where
  "patchTestTarget restClient ident body =
     (case httpPatch restClient (''/test-targets/'' @ ident) body of
        Inl error \<Rightarrow> ConnectionRefusedFailure
      | Inr response \<Rightarrow>
          if r_status response \<noteq> 200 then RepositoryAccessFailure response
          else RepositoryAccessSuccess (dataOf response))"

definition deleteTestTarget :: "'e RESTClient \<Rightarrow> string \<Rightarrow> RepositoryAccessResult" where
  "deleteTestTarget restClient ident =
     (case httpDelete restClient (''/test-targets/'' @ ident) of
        Inl error \<Rightarrow> ConnectionRefusedFailure
      | Inr response \<Rightarrow>
          if r_status response \<noteq> 204 then RepositoryAccessFailure response
          else RepositoryAccessSuccess (r_data response))"

definition postProjectForExport :: "'e RESTClient \<Rightarrow> string \<Rightarrow> json \<Rightarrow> RepositoryAccessResult" where
  "postProjectForExport restClient projectId selectOption =
     (case httpPost restClient (''/projects/'' @ projectId @ ''/export'') selectOption of
        Inl error \<Rightarrow> ConnectionRefusedFailure
      | Inr response \<Rightarrow>
          if r_status response \<noteq> 200 then RepositoryAccessFailure response
          else RepositoryAccessSuccess (dataOf response))"

definition getProjects :: "'e RESTClient \<Rightarrow> RepositoryAccessResult" where
  "getProjects restClient =
     (case httpGet restClient ''/projects'' of
        Inl error \<Rightarrow> ConnectionRefusedFailure
      | Inr response \<Rightarrow>
          if r_status response \<noteq> 200 then RepositoryAccessFailure response
          else RepositoryAccessSuccess (dataOf response))"

definition getProject :: "'e RESTClient \<Rightarrow> string \<Rightarrow> RepositoryAccessResult" where
  "getProject restClient projectId =
     (case httpGet restClient (''/projects/'' @ projectId) of
        Inl error \<Rightarrow> ConnectionRefusedFailure
      | Inr response \<Rightarrow>
          if r_status response \<noteq> 200 then RepositoryAccessFailure response
          else RepositoryAccessSuccess (dataOf response))"

definition postProject :: "'e RESTClient \<Rightarrow> RepositoryAccessResult" where
  "postProject restClient =
     (case httpPost restClient ''/projects'' (JObj [(''name'', JStr [])]) of
        Inl error \<Rightarrow> ConnectionRefusedFailure
      | Inr response \<Rightarrow>
          if r_status response \<noteq> 200 then RepositoryAccessFailure response
          else RepositoryAccessSuccess (dataOf response))"

definition putProject :: "'e RESTClient \<Rightarrow> string \<Rightarrow> json \<Rightarrow> RepositoryAccessResult" where
  "putProject restClient projectId body =
     (case httpPut restClient (''/projects/'' @ projectId) body of
        Inl error \<Rightarrow> ConnectionRefusedFailure
      | Inr response \<Rightarrow>
          if r_status response \<noteq> 200 then RepositoryAccessFailure response
          else RepositoryAccessSuccess (dataOf response))"

section \<open>The repository service dispatcher: settings (RepositoryServiceDispatcher)\<close>

text \<open>
  The dispatcher's reply: \<open>succeeded\<close> with the data, or not, with an error code and message.
\<close>

datatype 'a Reply =
    Succeeded 'a
  | Failed string string

text \<open>
  The dispatcher uses the default-exported REST client, whose methods resolve to the
  response body itself or throw; no status code reaches the dispatcher. How that client
  treats a non-success status is not in the sources, so both behaviours are inputs here:
  the method may throw any value of type \<open>'e\<close> or return any body.
  Requests are keyed by the path handed to \<open>buildAPIURL\<close>, which prefixes it with
  \<open>api/v1\<close> and resolves it against the service URL; \<open>resolveURL\<close> stands for the
  platform's \<open>new URL(relative, base).toString()\<close>, taken to succeed: the service URL
  is a valid base and the paths resolved against it are valid references.
\<close>

record 'e LegacyRESTClient =
  legacyGet :: "string \<Rightarrow> 'e + json"
  legacyPost :: "string \<Rightarrow> json \<Rightarrow> 'e + json"
  legacyPut :: "string \<Rightarrow> json \<Rightarrow> 'e + json"
  legacyPatch :: "string \<Rightarrow> json \<Rightarrow> 'e + json"
  legacyDelete :: "string \<Rightarrow> 'e + json"

record ServiceConfig =
  serviceUrl :: string
  proxyUrl :: string
  resolveURL :: "string \<Rightarrow> string \<Rightarrow> string"

definition buildAPIURL :: "ServiceConfig \<Rightarrow> string \<Rightarrow> string" where
  "buildAPIURL cfg url = resolveURL cfg (''api/v1'' @ url) (serviceUrl cfg)"

definition getSettings :: "ServiceConfig \<Rightarrow> 'e LegacyRESTClient \<Rightarrow> json Reply" where
  "getSettings cfg restClient =
     (case legacyGet restClient (buildAPIURL cfg ''/projects/1/configs'') of
        Inl error \<Rightarrow> Failed ''repository_service_not_found'' ''Repository service is not found.''
      | Inr data \<Rightarrow> Succeeded data)"

definition saveSettings :: "ServiceConfig \<Rightarrow> 'e LegacyRESTClient \<Rightarrow> json \<Rightarrow> json Reply" where
  "saveSettings cfg restClient settings =
     (case legacyPut restClient (buildAPIURL cfg ''/projects/1/configs'') settings of
        Inl error \<Rightarrow> Failed ''repository_service_not_found'' ''Repository service is not found.''
      | Inr data \<Rightarrow> Succeeded data)"

definition getDeviceSettings :: "ServiceConfig \<Rightarrow> 'e LegacyRESTClient \<Rightarrow> json Reply" where
  "getDeviceSettings cfg restClient =
     (case legacyGet restClient (buildAPIURL cfg ''/projects/1/device-configs'') of
        Inl error \<Rightarrow> Failed ''repository_service_not_found'' ''Repository service is not found.''
      | Inr data \<Rightarrow> Succeeded data)"

text \<open>
  What the claim asks of an operation, given the outcome of its request, the status it
  accepts and the object it hands to the success: a throw gives the connection-refused
  failure, another status gives the failure carrying the response, the accepted status
  gives the success.
\<close>

definition classifies ::
  "('e + response) \<Rightarrow> nat \<Rightarrow> (response \<Rightarrow> json) \<Rightarrow> RepositoryAccessResult \<Rightarrow> bool" where
  "classifies outcome accepted argument res =
     (case outcome of
        Inl error \<Rightarrow> res = ConnectionRefusedFailure
      | Inr response \<Rightarrow>
          if r_status response = accepted then res = RepositoryAccessSuccess (argument response)
          else res = RepositoryAccessFailure response)"

text \<open>
  What the dispatcher does instead: one failure for every throw, success for every body.
\<close>

definition catchesAll :: "('e + json) \<Rightarrow> json Reply \<Rightarrow> bool" where
  "catchesAll outcome reply =
     (case outcome of
        Inl error \<Rightarrow> reply = Failed ''repository_service_not_found'' ''Repository service is not found.''
      | Inr data \<Rightarrow> reply = Succeeded data)"

text \<open>
  Thrown values: a failed transport, a response of a non-success status turned into an
  exception, and a plain \<open>new Error()\<close>. Sample clients: what a legacy client can do with
  a refused connection (throw) and with a response of status 500 (throw, or return the
  body), and clients of the repository classes that answer every request alike.
\<close>

datatype thrown = TransportError | StatusError nat | PlainError

definition throwingClient :: "thrown \<Rightarrow> thrown LegacyRESTClient" where
  "throwingClient e =
     \<lparr> legacyGet = (\<lambda>url. Inl e), legacyPost = (\<lambda>url body. Inl e), legacyPut = (\<lambda>url body. Inl e),
       legacyPatch = (\<lambda>url body. Inl e), legacyDelete = (\<lambda>url. Inl e) \<rparr>"

definition returningClient :: "json \<Rightarrow> thrown LegacyRESTClient" where
  "returningClient d =
     \<lparr> legacyGet = (\<lambda>url. Inr d), legacyPost = (\<lambda>url body. Inr d), legacyPut = (\<lambda>url body. Inr d),
       legacyPatch = (\<lambda>url body. Inr d), legacyDelete = (\<lambda>url. Inr d) \<rparr>"

definition constantClient :: "(thrown + response) \<Rightarrow> thrown RESTClient" where
  "constantClient outcome =
     \<lparr> httpGet = (\<lambda>url. outcome), httpPost = (\<lambda>url body. outcome), httpPut = (\<lambda>url body. outcome),
       httpPatch = (\<lambda>url body. outcome), httpDelete = (\<lambda>url. outcome) \<rparr>"

definition sampleConfig :: ServiceConfig where
  "sampleConfig =
     \<lparr> serviceUrl = ''http://127.0.0.1:3002'', proxyUrl = [],
       resolveURL = (\<lambda>relative base. base @ ''/'' @ relative) \<rparr>"

definition errorBody :: json where
  "errorBody = JObj [(''code'', JStr ''internal_server_error'')]"

section \<open>Restoring a test result (RepositoryServiceDispatcher.resume)\<close>

text \<open>
  The test result as the service returns it: every test step carries its operation, its
  intention and its bug and notice lists as objects; each of them may be missing.
\<close>

record OperationJson =
  oj_sequence :: nat
  oj_windowHandle :: string
  oj_screenDef :: string
  oj_imageFileUrl :: "string option"
  oj_keywordTexts :: "string list option"
  oj_inputElements :: "json list"

record NoteJson =
  nj_id :: nat
  nj_type :: string
  nj_value :: string
  nj_details :: string
  nj_imageFileUrl :: "string option"
  nj_tags :: "string list option"





text \<open>A missing or empty string is falsy in a condition.\<close>

definition truthy :: "string option \<Rightarrow> bool" where
  "truthy s = (case s of None \<Rightarrow> False | Some t \<Rightarrow> t \<noteq> [])"

definition imageUrlOrEmpty :: "ServiceConfig \<Rightarrow> string option \<Rightarrow> string" where
  "imageUrlOrEmpty cfg imageFileUrl =
     (if truthy imageFileUrl then resolveURL cfg (the imageFileUrl) (serviceUrl cfg) else [])"










section \<open>Generating test scripts (actions.ts, generateTestScripts)\<close>

record GenerationOption =
  useDataDriven :: bool
  maxGeneration :: nat

record GenerationSource =
  gs_initialUrl :: string
  gs_history :: "Operation list"

record GenerationPayload =
  gp_testResultId :: "string option"
  gp_projectId :: "string option"
  gp_sources :: "GenerationSource list"
  gp_option :: GenerationOption

record GeneratorSettings =
  optimize :: bool
  testData :: GenerationOption

record GenerationParams =
  testResultIdOf :: "string option"
  projectIdParam :: "string option"
  sources :: "GenerationSource list"

text \<open>\<open>String.prototype.replace\<close> with a string pattern replaces its first occurrence.\<close>

fun replaceFirst :: "string \<Rightarrow> string \<Rightarrow> string \<Rightarrow> string" where
  "replaceFirst pattern replacement [] = (if pattern = [] then replacement else [])"
| "replaceFirst pattern replacement (c # cs) =
     (if take (length pattern) (c # cs) = pattern
      then replacement @ drop (length pattern) (c # cs)
      else c # replaceFirst pattern replacement cs)"

definition imageUrlResolver :: "string \<Rightarrow> string \<Rightarrow> string" where
  "imageUrlResolver serviceUrlOfDispatcher url =
     replaceFirst (serviceUrlOfDispatcher @ ''/test-results/'') [] url"

text \<open>
  \<open>GenerateTestScriptsAction\<close> and \<open>TestScriptGeneratorImpl\<close> are not among the sources.
  The parameter \<open>generateScripts\<close> stands for the call
  \<open>new GenerateTestScriptsAction(dispatcher, new TestScriptGeneratorImpl(resolver, settings)).generate(params)\<close>:
  it is given the URL resolver, the generator settings and the request. The left summand
  is the message of the error it throws, the right one the URL of the stored scripts.
  \<open>message\<close> is the root getter that renders a message key. The first statement of the
  action binds \<open>optimize\<close> to \<open>true\<close>.
\<close>

definition generateTestScripts ::
  "(string \<Rightarrow> string) \<Rightarrow> string
     \<Rightarrow> ((string \<Rightarrow> string) \<Rightarrow> GeneratorSettings \<Rightarrow> GenerationParams \<Rightarrow> string + string)
     \<Rightarrow> GenerationPayload \<Rightarrow> string + string" where
  "generateTestScripts message serviceUrlOfDispatcher generateScripts payload =
     (let optimizeFlag = True
      in case generateScripts (imageUrlResolver serviceUrlOfDispatcher)
                \<lparr> optimize = optimizeFlag,
                  testData = \<lparr> useDataDriven = useDataDriven (gp_option payload),
                               maxGeneration = maxGeneration (gp_option payload) \<rparr> \<rparr>
                \<lparr> testResultIdOf = gp_testResultId payload,
                  projectIdParam = gp_projectId payload,
                  sources = gp_sources payload \<rparr> of
           Inr url \<Rightarrow> Inr url
         | Inl errorMessage \<Rightarrow>
             if errorMessage = ''generate_test_suite_failed''
             then (let errorCode = (if optimizeFlag then ''save_test_scripts_no_section_error''
                                    else ''save_test_scripts_no_operation_error'')
                   in Inl (message (''error.operation_history.'' @ errorCode)))
             else Inl (message (''error.operation_history.'' @ errorMessage)))"

text \<open>
  Sample requests: one source that holds no operation, two such sources, and one source
  with one operation. The sample generator reports a request without operations with the
  message \<open>generateTestScripts\<close> tests for, and otherwise answers with a URL that names
  the mode it was given.
\<close>

definition emptyRequest :: GenerationPayload where
  "emptyRequest =
     \<lparr> gp_testResultId = Some ''r1'', gp_projectId = None,
       gp_sources = [\<lparr> gs_initialUrl = ''http://host/'', gs_history = [] \<rparr>],
       gp_option = \<lparr> useDataDriven = False, maxGeneration = 0 \<rparr> \<rparr>"

definition emptyProjectRequest :: GenerationPayload where
  "emptyProjectRequest =
     \<lparr> gp_testResultId = None, gp_projectId = Some ''p1'',
       gp_sources = [\<lparr> gs_initialUrl = ''http://host/a'', gs_history = [] \<rparr>,
                     \<lparr> gs_initialUrl = ''http://host/b'', gs_history = [] \<rparr>],
       gp_option = \<lparr> useDataDriven = True, maxGeneration = 2 \<rparr> \<rparr>"

definition filledRequest :: GenerationPayload where
  "filledRequest =
     emptyRequest\<lparr>gp_sources :=
       [\<lparr> gs_initialUrl = ''http://host/'',
           gs_history = [\<lparr> sequence = 1, windowHandle = ''hA'', screenDef = ''Home'',
                           imageFilePath = [], keywordSet = {}, inputElements = [] \<rparr>] \<rparr>]\<rparr>"

definition sampleGenerator ::
  "(string \<Rightarrow> string) \<Rightarrow> GeneratorSettings \<Rightarrow> GenerationParams \<Rightarrow> string + string" where
  "sampleGenerator resolver settings params =
     (if concat (map gs_history (sources params)) = [] then Inl ''generate_test_suite_failed''
      else Inr (if optimize settings then ''optimized.zip'' else ''plain.zip''))"

section \<open>The repository service behind the dispatcher\<close>

text \<open>
  Modelled from the spec: the service and the dispatcher's REST client are not among the
  sources. The spec lists the service's interface (\<open>postNote\<close>, \<open>putNote\<close>,
  \<open>patchTestStep\<close> of the linkage fields, \<open>getOperations/testSteps\<close>) and assumes that a
  request returns the freshly persisted object with a server-assigned identifier. A test
  step resource holds the identifier of its intention and the identifier lists of its bugs
  and notices; a \<open>PATCH\<close> replaces the fields it names and returns the step; a \<open>POST\<close> of a
  note stores it under the next identifier. An entry \<open>None\<close> of an identifier list is a
  \<open>null\<close> written by a client. A request for a resource that does not exist is answered
  with status 404, which the client throws. \<open>refusals\<close> scripts the transport: each request
  consumes one entry, and \<open>True\<close> means that the connection is refused, so the client
  throws and the service state is unchanged. What the service answers to the registration
  of an operation and to the compression requests is left open: \<open>registerStep\<close>,
  \<open>compressedNoteImage\<close> and \<open>compressedStepImage\<close> give the answers.
\<close>

record TestStepEntity =
  step_intention :: "nat option"
  step_bugs :: "nat option list"
  step_notices :: "nat option list"

record NoteBody =
  nb_type :: string
  nb_value :: string
  nb_details :: string
  nb_tags :: "string list option"
  nb_imageData :: "string option"

record ProjectJson =
  pj_id :: string
  pj_name :: string
  pj_body :: json

record CapturedOperation =
  co_pageSource :: string
  co_keywordTexts :: "string list option"
  co_captured :: json

record InputElementInfo =
  iei_inputElements :: "json list option"

record RegisteredStep =
  rs_operation :: OperationJson
  rs_coverageSource :: json
  rs_inputElementInfo :: "InputElementInfo option"

record Backend =
  testSteps :: "string \<times> nat \<Rightarrow> TestStepEntity option"
  noteStore :: "string \<times> nat \<Rightarrow> NoteJson option"
  nextNoteId :: nat
  imagePathOf :: "nat \<Rightarrow> string"
  projects :: "ProjectJson list"
  projectIdOf :: "nat \<Rightarrow> string"
  nextProject :: nat
  registerStep :: "string \<Rightarrow> CapturedOperation \<Rightarrow> thrown + RegisteredStep"
  compressedNoteImage :: "string \<Rightarrow> nat option \<Rightarrow> thrown + string option"
  compressedStepImage :: "string \<Rightarrow> nat \<Rightarrow> thrown + string option"
  refusals :: "bool list"

type_synonym 'a rest = "Backend \<Rightarrow> (thrown + 'a) \<times> Backend"

definition returnR :: "'a \<Rightarrow> 'a rest" where
  "returnR a b = (Inr a, b)"

definition thenR :: "'a rest \<Rightarrow> ('a \<Rightarrow> 'b rest) \<Rightarrow> 'b rest" where
  "thenR m f b = (case m b of (Inl e, b1) \<Rightarrow> (Inl e, b1) | (Inr a, b1) \<Rightarrow> f a b1)"

text \<open>One request: the transport script is consumed first, then the service answers.\<close>

definition request :: "(Backend \<Rightarrow> (thrown + 'a) \<times> Backend) \<Rightarrow> 'a rest" where
  "request serve b =
     (case refusals b of
        [] \<Rightarrow> serve b
      | refused # later \<Rightarrow>
          if refused then (Inl TransportError, b\<lparr>refusals := later\<rparr>)
          else serve (b\<lparr>refusals := later\<rparr>))"

text \<open>
  Whether the next request gets through, and the service state once it has been consumed
  from the script.
\<close>

definition accepted :: "Backend \<Rightarrow> bool" where
  "accepted b = (case refusals b of [] \<Rightarrow> True | refused # later \<Rightarrow> \<not> refused)"

definition served :: "Backend \<Rightarrow> Backend" where
  "served b = b\<lparr>refusals := tl (refusals b)\<rparr>"

definition httpGetTestStep :: "string \<Rightarrow> nat \<Rightarrow> TestStepEntity rest" where
  "httpGetTestStep testResultId seqNo =
     request (\<lambda>b. case testSteps b (testResultId, seqNo) of
                     None \<Rightarrow> (Inl (StatusError 404), b)
                   | Some step \<Rightarrow> (Inr step, b))"

definition patchStep ::
  "string \<Rightarrow> nat \<Rightarrow> (TestStepEntity \<Rightarrow> TestStepEntity) \<Rightarrow> TestStepEntity rest" where
  "patchStep testResultId seqNo change =
     request (\<lambda>b. case testSteps b (testResultId, seqNo) of
                     None \<Rightarrow> (Inl (StatusError 404), b)
                   | Some step \<Rightarrow>
                       (Inr (change step),
                        b\<lparr>testSteps := (testSteps b)((testResultId, seqNo) \<mapsto> change step)\<rparr>))"

definition httpPatchTestStepBugs :: "string \<Rightarrow> nat \<Rightarrow> nat option list \<Rightarrow> TestStepEntity rest" where
  "httpPatchTestStepBugs testResultId seqNo ids =
     patchStep testResultId seqNo (\<lambda>step. step\<lparr>step_bugs := ids\<rparr>)"

definition httpPatchTestStepNotices :: "string \<Rightarrow> nat \<Rightarrow> nat option list \<Rightarrow> TestStepEntity rest" where
  "httpPatchTestStepNotices testResultId seqNo ids =
     patchStep testResultId seqNo (\<lambda>step. step\<lparr>step_notices := ids\<rparr>)"

definition httpPatchTestStepIntention :: "string \<Rightarrow> nat \<Rightarrow> nat option \<Rightarrow> TestStepEntity rest" where
  "httpPatchTestStepIntention testResultId seqNo ident =
     patchStep testResultId seqNo (\<lambda>step. step\<lparr>step_intention := ident\<rparr>)"

definition httpPostNote :: "string \<Rightarrow> NoteBody \<Rightarrow> NoteJson rest" where
  "httpPostNote testResultId body =
     request (\<lambda>b.
       let saved = \<lparr> nj_id = nextNoteId b, nj_type = nb_type body, nj_value = nb_value body,
                     nj_details = nb_details body,
                     nj_imageFileUrl =
                       (case nb_imageData body of None \<Rightarrow> None
                        | Some screenshot \<Rightarrow> Some (imagePathOf b (nextNoteId b))),
                     nj_tags = nb_tags body \<rparr>
       in (Inr saved,
           b\<lparr>noteStore := (noteStore b)((testResultId, nextNoteId b) \<mapsto> saved),
             nextNoteId := nextNoteId b + 1\<rparr>))"

definition httpGetNote :: "string \<Rightarrow> nat option \<Rightarrow> NoteJson rest" where
  "httpGetNote testResultId noteId =
     request (\<lambda>b. case noteId of
                     None \<Rightarrow> (Inl (StatusError 404), b)
                   | Some n \<Rightarrow>
                       (case noteStore b (testResultId, n) of
                          None \<Rightarrow> (Inl (StatusError 404), b)
                        | Some note \<Rightarrow> (Inr note, b)))"

definition httpPutNote :: "string \<Rightarrow> nat option \<Rightarrow> NoteBody \<Rightarrow> NoteJson rest" where
  "httpPutNote testResultId noteId body =
     request (\<lambda>b. case noteId of
                     None \<Rightarrow> (Inl (StatusError 404), b)
                   | Some n \<Rightarrow>
                       (case noteStore b (testResultId, n) of
                          None \<Rightarrow> (Inl (StatusError 404), b)
                        | Some note \<Rightarrow>
                            (let saved = note\<lparr>nj_type := nb_type body, nj_value := nb_value body,
                                              nj_details := nb_details body,
                                              nj_tags := nb_tags body\<rparr>
                             in (Inr saved, b\<lparr>noteStore := (noteStore b)((testResultId, n) \<mapsto> saved)\<rparr>))))"

definition httpGetProjects :: "ProjectJson list rest" where
  "httpGetProjects = request (\<lambda>b. (Inr (projects b), b))"

definition httpPostProject :: "string \<Rightarrow> ProjectJson rest" where
  "httpPostProject name =
     request (\<lambda>b.
       let created = \<lparr> pj_id = projectIdOf b (nextProject b), pj_name = name, pj_body = JObj [] \<rparr>
       in (Inr created, b\<lparr>projects := projects b @ [created], nextProject := nextProject b + 1\<rparr>))"

definition httpGetProject :: "string \<Rightarrow> ProjectJson rest" where
  "httpGetProject projectId =
     request (\<lambda>b. case find (\<lambda>p. pj_id p = projectId) (projects b) of
                     None \<Rightarrow> (Inl (StatusError 404), b)
                   | Some project \<Rightarrow> (Inr project, b))"




section \<open>The dispatcher's note and project operations (RepositoryServiceDispatcher)\<close>

text \<open>
  The body of every operation is one \<open>try\<close> block: the first request that throws ends it,
  and the \<open>catch\<close> block answers with a fixed error. Requests made before the throw have
  taken effect.
\<close>

definition catchReply :: "'a rest \<Rightarrow> string \<Rightarrow> string \<Rightarrow> Backend \<Rightarrow> 'a Reply \<times> Backend" where
  "catchReply body code msg b =
     (case body b of
        (Inl error, b1) \<Rightarrow> (Failed code msg, b1)
      | (Inr a, b1) \<Rightarrow> (Succeeded a, b1))"

text \<open>Reading an array at an index: outside the array the result is \<open>undefined\<close>.\<close>

definition at :: "'a option list \<Rightarrow> int \<Rightarrow> 'a option" where
  "at xs i = (if 0 \<le> i \<and> i < int (length xs) then xs ! nat i else None)"

definition withoutIndex :: "int \<Rightarrow> 'a list \<Rightarrow> 'a list" where
  "withoutIndex i xs = filterWithIndex (\<lambda>x index array. int index \<noteq> i) xs"

definition noteOf :: "ServiceConfig \<Rightarrow> nat option \<Rightarrow> nat \<Rightarrow> NoteJson \<Rightarrow> Note" where
  "noteOf cfg ident seqNo saved =
     \<lparr> note_id = ident,
       note_sequence = seqNo,
       note_value = nj_value saved,
       note_details = nj_details saved,
       note_imageFilePath = imageUrlOrEmpty cfg (nj_imageFileUrl saved),
       note_tags = nj_tags saved \<rparr>"

definition addBug ::
  "ServiceConfig \<Rightarrow> string \<Rightarrow> nat \<Rightarrow> string \<Rightarrow> string \<Rightarrow> string option
     \<Rightarrow> Backend \<Rightarrow> (Note \<times> int) Reply \<times> Backend" where
  "addBug cfg testResultId seqNo summary details imageData =
     catchReply
       (thenR (httpPostNote testResultId
                 \<lparr> nb_type = ''bug'', nb_value = summary, nb_details = details, nb_tags = None,
                   nb_imageData = imageData \<rparr>) (\<lambda>savedNote.
        thenR (thenR (httpGetTestStep testResultId seqNo) (\<lambda>step.
                 httpPatchTestStepBugs testResultId seqNo (step_bugs step @ [Some (nj_id savedNote)])))
          (\<lambda>savedTestStep.
        returnR (noteOf cfg (Some (nj_id savedNote)) seqNo savedNote,
                 int (length (step_bugs savedTestStep)) - 1))))
       ''repository_service_not_found'' ''Repository service is not found.''"

definition editBug ::
  "ServiceConfig \<Rightarrow> string \<Rightarrow> nat \<Rightarrow> int \<Rightarrow> string \<Rightarrow> string
     \<Rightarrow> Backend \<Rightarrow> (Note \<times> int) Reply \<times> Backend" where
  "editBug cfg testResultId seqNo index summary details =
     catchReply
       (thenR (httpGetTestStep testResultId seqNo) (\<lambda>step.
        thenR (httpPutNote testResultId (at (step_bugs step) index)
                 \<lparr> nb_type = ''bug'', nb_value = summary, nb_details = details, nb_tags = None,
                   nb_imageData = None \<rparr>) (\<lambda>savedNote.
        returnR (noteOf cfg None seqNo savedNote, index))))
       ''repository_service_not_found'' ''Repository service is not found.''"

definition moveBug ::
  "ServiceConfig \<Rightarrow> string \<Rightarrow> nat \<times> int \<Rightarrow> nat \<Rightarrow> Backend \<Rightarrow> (Note \<times> int) Reply \<times> Backend" where
  "moveBug cfg testResultId from dest =
     catchReply
       (thenR (httpGetTestStep testResultId (fst from)) (\<lambda>fromStep.
        thenR (httpPatchTestStepBugs testResultId (fst from)
                 (withoutIndex (snd from) (step_bugs fromStep))) (\<lambda>unlinked.
        thenR (httpGetTestStep testResultId dest) (\<lambda>destStep.
        thenR (httpPatchTestStepBugs testResultId dest
                 (step_bugs destStep @ [at (step_bugs fromStep) (snd from)])) (\<lambda>linked.
        thenR (httpGetNote testResultId (at (step_bugs fromStep) (snd from))) (\<lambda>note.
        returnR (noteOf cfg None dest note, int (length (step_bugs destStep)))))))))
       ''repository_service_not_found'' ''Repository service is not found.''"

definition addNotice ::
  "ServiceConfig \<Rightarrow> string \<Rightarrow> nat \<Rightarrow> string \<Rightarrow> string \<Rightarrow> string list \<Rightarrow> string option
     \<Rightarrow> Backend \<Rightarrow> (Note \<times> int) Reply \<times> Backend" where
  "addNotice cfg testResultId seqNo summary details tags imageData =
     catchReply
       (thenR (httpPostNote testResultId
                 \<lparr> nb_type = ''notice'', nb_value = summary, nb_details = details,
                   nb_tags = Some tags, nb_imageData = imageData \<rparr>) (\<lambda>savedNote.
        thenR (thenR (httpGetTestStep testResultId seqNo) (\<lambda>step.
                 httpPatchTestStepNotices testResultId seqNo
                   (step_notices step @ [Some (nj_id savedNote)])))
          (\<lambda>savedTestStep.
        returnR (noteOf cfg (Some (nj_id savedNote)) seqNo savedNote,
                 int (length (step_notices savedTestStep)) - 1))))
       ''repository_service_not_found'' ''Repository service is not found.''"

definition editNotice ::
  "ServiceConfig \<Rightarrow> string \<Rightarrow> nat \<Rightarrow> int \<Rightarrow> string \<Rightarrow> string \<Rightarrow> string list
     \<Rightarrow> Backend \<Rightarrow> (Note \<times> int) Reply \<times> Backend" where
  "editNotice cfg testResultId seqNo index summary details tags =
     catchReply
       (thenR (httpGetTestStep testResultId seqNo) (\<lambda>step.
        thenR (httpPutNote testResultId (at (step_notices step) index)
                 \<lparr> nb_type = ''notice'', nb_value = summary, nb_details = details,
                   nb_tags = Some tags, nb_imageData = None \<rparr>) (\<lambda>savedNote.
        returnR (noteOf cfg None seqNo savedNote, index))))
       ''repository_service_not_found'' ''Repository service is not found.''"

definition moveNotice ::
  "ServiceConfig \<Rightarrow> string \<Rightarrow> nat \<times> int \<Rightarrow> nat \<Rightarrow> Backend \<Rightarrow> (Note \<times> int) Reply \<times> Backend" where
  "moveNotice cfg testResultId from dest =
     catchReply
       (thenR (httpGetTestStep testResultId (fst from)) (\<lambda>fromStep.
        thenR (httpPatchTestStepNotices testResultId (fst from)
                 (withoutIndex (snd from) (step_notices fromStep))) (\<lambda>unlinked.
        thenR (httpGetTestStep testResultId dest) (\<lambda>destStep.
        thenR (httpPatchTestStepNotices testResultId dest
                 (step_notices destStep @ [at (step_notices fromStep) (snd from)])) (\<lambda>linked.
        thenR (httpGetNote testResultId (at (step_notices fromStep) (snd from))) (\<lambda>note.
        returnR (noteOf cfg None dest note, int (length (step_notices destStep)))))))))
       ''repository_service_not_found'' ''Repository service is not found.''"

definition moveIntention ::
  "ServiceConfig \<Rightarrow> string \<Rightarrow> nat \<Rightarrow> nat \<Rightarrow> Backend \<Rightarrow> Note Reply \<times> Backend" where
  "moveIntention cfg testResultId fromSequence destSequence =
     catchReply
       (thenR (httpGetTestStep testResultId fromSequence) (\<lambda>fromStep.
        thenR (httpPatchTestStepIntention testResultId fromSequence None) (\<lambda>unlinked.
        thenR (httpPatchTestStepIntention testResultId destSequence (step_intention fromStep))
          (\<lambda>linked.
        thenR (httpGetNote testResultId (step_intention fromStep)) (\<lambda>note.
        returnR (noteOf cfg None destSequence note))))))
       ''repository_service_not_found'' ''Repository service is not found.''"

definition readProject :: "string \<Rightarrow> Backend \<Rightarrow> ProjectJson Reply \<times> Backend" where
  "readProject projectId =
     catchReply
       (thenR httpGetProjects (\<lambda>listed.
        thenR (if projectId \<in> set (map pj_id listed) then returnR projectId
               else thenR (httpPostProject []) (\<lambda>created. returnR (pj_id created)))
          (\<lambda>targetProjectId.
        httpGetProject targetProjectId)))
       ''code'' ''error''"




text \<open>
  The links of a test step as the service holds them, and whether none of the next \<open>n\<close>
  requests is refused.
\<close>

definition bugsOf :: "Backend \<Rightarrow> string \<Rightarrow> nat \<Rightarrow> nat option list option" where
  "bugsOf b testResultId seqNo = map_option step_bugs (testSteps b (testResultId, seqNo))"

definition noticesOf :: "Backend \<Rightarrow> string \<Rightarrow> nat \<Rightarrow> nat option list option" where
  "noticesOf b testResultId seqNo = map_option step_notices (testSteps b (testResultId, seqNo))"

definition intentionOf :: "Backend \<Rightarrow> string \<Rightarrow> nat \<Rightarrow> nat option option" where
  "intentionOf b testResultId seqNo = map_option step_intention (testSteps b (testResultId, seqNo))"

fun unrefused :: "nat \<Rightarrow> bool list \<Rightarrow> bool" where
  "unrefused 0 script = True"
| "unrefused (Suc n) [] = True"
| "unrefused (Suc n) (refused # later) = (\<not> refused \<and> unrefused n later)"

text \<open>
  A service holding test result \<open>r1\<close> with two test steps: the first has an intention,
  the bugs 7 and 8 and the notice 5, the second has no note. It knows one project.
\<close>

definition sampleNote :: "nat \<Rightarrow> string \<Rightarrow> NoteJson" where
  "sampleNote ident kind =
     \<lparr> nj_id = ident, nj_type = kind, nj_value = ''note'', nj_details = [],
       nj_imageFileUrl = None, nj_tags = None \<rparr>"

definition sampleBackend :: "bool list \<Rightarrow> Backend" where
  "sampleBackend script =
     \<lparr> testSteps =
         [(''r1'', 1) \<mapsto> \<lparr> step_intention = Some 3, step_bugs = [Some 7, Some 8],
                            step_notices = [Some 5] \<rparr>,
          (''r1'', 2) \<mapsto> \<lparr> step_intention = None, step_bugs = [], step_notices = [] \<rparr>],
       noteStore =
         [(''r1'', 3) \<mapsto> sampleNote 3 ''intention'', (''r1'', 5) \<mapsto> sampleNote 5 ''notice'',
          (''r1'', 7) \<mapsto> sampleNote 7 ''bug'', (''r1'', 8) \<mapsto> sampleNote 8 ''bug''],
       nextNoteId = 9,
       imagePathOf = (\<lambda>n. ''screenshots/'' @ showNat n @ ''.png''),
       projects = [\<lparr> pj_id = ''p1'', pj_name = ''demo'', pj_body = JObj [] \<rparr>],
       projectIdOf = (\<lambda>n. ''p'' @ showNat (n + 1)),
       nextProject = 1,
       registerStep = (\<lambda>testResultId capturedOperation. Inl (StatusError 500)),
       compressedNoteImage = (\<lambda>testResultId noteId. Inl (StatusError 500)),
       compressedStepImage = (\<lambda>testResultId seqNo. Inl (StatusError 500)),
       refusals = script \<rparr>"

text \<open>The sample service with an intention, note 4, on the second step as well.\<close>

definition occupiedBackend :: "bool list \<Rightarrow> Backend" where
  "occupiedBackend script =
     (sampleBackend script)
       \<lparr> testSteps :=
           [(''r1'', 1) \<mapsto> \<lparr> step_intention = Some 3, step_bugs = [Some 7, Some 8],
                              step_notices = [Some 5] \<rparr>,
            (''r1'', 2) \<mapsto> \<lparr> step_intention = Some 4, step_bugs = [], step_notices = [] \<rparr>],
         noteStore :=
           [(''r1'', 3) \<mapsto> sampleNote 3 ''intention'', (''r1'', 4) \<mapsto> sampleNote 4 ''intention'',
            (''r1'', 5) \<mapsto> sampleNote 5 ''notice'',
            (''r1'', 7) \<mapsto> sampleNote 7 ''bug'', (''r1'', 8) \<mapsto> sampleNote 8 ''bug''] \<rparr>"

text \<open>The note object a move of a sample note to a step returns.\<close>

definition sampleMoved :: "nat \<Rightarrow> Note" where
  "sampleMoved seqNo =
     \<lparr> note_id = None, note_sequence = seqNo, note_value = ''note'', note_details = [],
       note_imageFilePath = [], note_tags = None \<rparr>"

section \<open>The operation history store and its actions (actions.ts)\<close>

text \<open>
  The part of the store's state that the actions below read or change.
\<close>

record OperationHistoryState =
  history :: "OperationWithNotes list"
  canUpdateModels :: bool
  coverageSources :: "json list"
  inputElementInfos :: "InputElementInfo list"
  imageCompressionEnabled :: bool
  testResultInfoId :: string

datatype Mutation =
    AddHistory OperationWithNotes
  | RegisterCoverageSource json
  | RegisterInputElementInfo InputElementInfo
  | SetCanUpdateModels bool
  | SetBug Note int
  | SetNotice Note int
  | DeleteBug nat int
  | DeleteNotice nat int
  | ReplaceTestStepsImageFileUrl nat string
  | ReplaceNoteImageFileUrl string nat int "string option"

text \<open>Writing into an array at an index: inside the array the entry is replaced, at its end it is appended.\<close>

definition putAt :: "int \<Rightarrow> 'a \<Rightarrow> 'a list \<Rightarrow> 'a list" where
  "putAt i x xs = (if 0 \<le> i \<and> i < int (length xs) then xs[nat i := x] else xs @ [x])"

definition changeAt :: "int \<Rightarrow> ('a \<Rightarrow> 'a) \<Rightarrow> 'a list \<Rightarrow> 'a list" where
  "changeAt i f xs = (if 0 \<le> i \<and> i < int (length xs) then xs[nat i := f (xs ! nat i)] else xs)"

definition onSequence ::
  "nat \<Rightarrow> (OperationWithNotes \<Rightarrow> OperationWithNotes) \<Rightarrow> OperationWithNotes list
     \<Rightarrow> OperationWithNotes list" where
  "onSequence seqNo change items =
     map (\<lambda>item. if sequence (operation item) = seqNo then change item else item) items"

definition orEmpty :: "'a list option \<Rightarrow> 'a list" where
  "orEmpty xs = (case xs of None \<Rightarrow> [] | Some ys \<Rightarrow> ys)"

text \<open>
  Modelled from the spec: the store's mutations (\<open>mutations.ts\<close>) are not among the
  sources. The spec: an operation is created on capture and never changed afterwards
  except for the replacement of its image URL, an update keyed by the sequence number;
  bugs and notices are ordered lists per operation whose order is the attachment order
  and the index; coverage sources are accumulated as operations are registered.
  \<open>addHistory\<close> appends the entry; the note mutations work on the entry with the given
  sequence number; the two replacements change the image path of the operation, or of
  the note at the index, and nothing else.
\<close>

fun commit :: "Mutation \<Rightarrow> OperationHistoryState \<Rightarrow> OperationHistoryState" where
  "commit (AddHistory entry) s = s\<lparr>history := history s @ [entry]\<rparr>"
| "commit (RegisterCoverageSource coverageSource) s =
     s\<lparr>coverageSources := coverageSources s @ [coverageSource]\<rparr>"
| "commit (RegisterInputElementInfo inputElementInfo) s =
     s\<lparr>inputElementInfos := inputElementInfos s @ [inputElementInfo]\<rparr>"
| "commit (SetCanUpdateModels flag) s = s\<lparr>canUpdateModels := flag\<rparr>"
| "commit (SetBug bug index) s =
     s\<lparr>history := onSequence (note_sequence bug)
                     (\<lambda>item. item\<lparr>bugs := Some (putAt index bug (orEmpty (bugs item)))\<rparr>)
                     (history s)\<rparr>"
| "commit (SetNotice notice index) s =
     s\<lparr>history := onSequence (note_sequence notice)
                     (\<lambda>item. item\<lparr>notices := Some (putAt index notice (orEmpty (notices item)))\<rparr>)
                     (history s)\<rparr>"
| "commit (DeleteBug seqNo index) s =
     s\<lparr>history := onSequence seqNo
                     (\<lambda>item. item\<lparr>bugs := Some (withoutIndex index (orEmpty (bugs item)))\<rparr>)
                     (history s)\<rparr>"
| "commit (DeleteNotice seqNo index) s =
     s\<lparr>history := onSequence seqNo
                     (\<lambda>item. item\<lparr>notices := Some (withoutIndex index (orEmpty (notices item)))\<rparr>)
                     (history s)\<rparr>"
| "commit (ReplaceTestStepsImageFileUrl seqNo imageFileUrl) s =
     s\<lparr>history := onSequence seqNo
                     (\<lambda>item. item\<lparr>operation := (operation item)\<lparr>imageFilePath := imageFileUrl\<rparr>\<rparr>)
                     (history s)\<rparr>"
| "commit (ReplaceNoteImageFileUrl kind seqNo index imageFileUrl) s =
     s\<lparr>history := onSequence seqNo
                     (\<lambda>item.
                        if kind = ''bug''
                        then item\<lparr>bugs := map_option
                               (changeAt index (\<lambda>n. n\<lparr>note_imageFilePath := orEmpty imageFileUrl\<rparr>))
                               (bugs item)\<rparr>
                        else item\<lparr>notices := map_option
                               (changeAt index (\<lambda>n. n\<lparr>note_imageFilePath := orEmpty imageFileUrl\<rparr>))
                               (notices item)\<rparr>)
                     (history s)\<rparr>"

text \<open>
  What an action works on: the store's state, the service, and the callbacks handed to
  \<open>setTimeout\<close> that have not run yet. A callback holds the values its closure captured.
\<close>

datatype Timer =
    CompressStep nat
  | CompressNote string "nat option" nat int

record World =
  store :: OperationHistoryState
  service :: Backend
  timers :: "Timer list"

datatype Outcome = Resolved | Rejected

text \<open>
  What the actions take from outside the store module: the dispatcher's configuration,
  the debug setting and the keyword collector of \<open>registerOperation\<close>, and the image
  that the screenshot action of the capture module returns.
\<close>

record ActionEnv =
  env_config :: ServiceConfig
  env_saveKeywordSet :: bool
  env_collectKeywords :: "string \<Rightarrow> string list"
  env_screenshot :: string

record NoteEditInfo =
  oldSequence :: "nat option"
  oldIndex :: "int option"
  newSequence :: "nat option"
  nei_note :: string
  noteDetails :: string
  shouldTakeScreenshot :: bool
  nei_tags :: "string list"

definition committed :: "Mutation \<Rightarrow> World \<Rightarrow> World" where
  "committed m w = w\<lparr>store := commit m (store w)\<rparr>"

definition setTimeout :: "Timer \<Rightarrow> World \<Rightarrow> World" where
  "setTimeout callback w = w\<lparr>timers := timers w @ [callback]\<rparr>"


text \<open>
  \<open>recordBug\<close> and \<open>recordNotice\<close>. After a failed reply the recorded note is
  \<open>undefined\<close>; the mutation that receives it throws when it reads the note, and the
  action is rejected.
\<close>

definition recordBug ::
  "ActionEnv \<Rightarrow> string \<Rightarrow> string \<Rightarrow> nat \<Rightarrow> int option \<Rightarrow> bool \<Rightarrow> World \<Rightarrow> Outcome \<times> World" where
  "recordBug env summary details seqNo index takeScreenshot w =
     (let imageData = (if takeScreenshot then Some (env_screenshot env) else None);
          (reply, service1) =
            (case index of
               Some i \<Rightarrow> editBug (env_config env) (testResultInfoId (store w)) seqNo i summary details
                          (service w)
             | None \<Rightarrow> addBug (env_config env) (testResultInfoId (store w)) seqNo summary details
                         imageData (service w));
          w1 = w\<lparr>service := service1\<rparr>
      in case reply of
           Failed code msg \<Rightarrow> (Rejected, w1)
         | Succeeded (bug, recordedIndex) \<Rightarrow>
             (let w2 = committed (SetBug bug recordedIndex) w1;
                  w3 = committed (SetCanUpdateModels True) w2
              in if imageCompressionEnabled (store w3)
                 then (Resolved, setTimeout (CompressNote ''bug'' (note_id bug) seqNo recordedIndex) w3)
                 else (Resolved, w3)))"

definition recordNotice ::
  "ActionEnv \<Rightarrow> string \<Rightarrow> string \<Rightarrow> string list \<Rightarrow> nat \<Rightarrow> int option \<Rightarrow> bool
     \<Rightarrow> World \<Rightarrow> Outcome \<times> World" where
  "recordNotice env summary details tags seqNo index takeScreenshot w =
     (let imageData = (if takeScreenshot then Some (env_screenshot env) else None);
          (reply, service1) =
            (case index of
               Some i \<Rightarrow> editNotice (env_config env) (testResultInfoId (store w)) seqNo i summary
                          details tags (service w)
             | None \<Rightarrow> addNotice (env_config env) (testResultInfoId (store w)) seqNo summary details
                         tags imageData (service w));
          w1 = w\<lparr>service := service1\<rparr>
      in case reply of
           Failed code msg \<Rightarrow> (Rejected, w1)
         | Succeeded (notice, recordedIndex) \<Rightarrow>
             (let w2 = committed (SetNotice notice recordedIndex) w1;
                  w3 = committed (SetCanUpdateModels True) w2
              in if takeScreenshot \<and> imageCompressionEnabled (store w3)
                 then (Resolved,
                       setTimeout (CompressNote ''notice'' (note_id notice) seqNo recordedIndex) w3)
                 else (Resolved, w3)))"


text \<open>
  The \<open>moveBug\<close> and \<open>moveNotice\<close> actions: the source entry is deleted from the store
  before the moved note, \<open>undefined\<close> after a failed reply, is handed to the mutation.
\<close>

definition moveBugAction :: "ActionEnv \<Rightarrow> nat \<times> int \<Rightarrow> nat \<Rightarrow> World \<Rightarrow> Outcome \<times> World" where
  "moveBugAction env from dest w =
     (let (reply, service1) =
            moveBug (env_config env) (testResultInfoId (store w)) from dest (service w);
          w1 = committed (DeleteBug (fst from) (snd from)) (w\<lparr>service := service1\<rparr>)
      in case reply of
           Failed code msg \<Rightarrow> (Rejected, w1)
         | Succeeded (bug, index) \<Rightarrow>
             (Resolved, committed (SetCanUpdateModels True) (committed (SetBug bug index) w1)))"

definition moveNoticeAction :: "ActionEnv \<Rightarrow> nat \<times> int \<Rightarrow> nat \<Rightarrow> World \<Rightarrow> Outcome \<times> World" where
  "moveNoticeAction env from dest w =
     (let (reply, service1) =
            moveNotice (env_config env) (testResultInfoId (store w)) from dest (service w);
          w1 = committed (DeleteNotice (fst from) (snd from)) (w\<lparr>service := service1\<rparr>)
      in case reply of
           Failed code msg \<Rightarrow> (Rejected, w1)
         | Succeeded (notice, index) \<Rightarrow>
             (Resolved, committed (SetCanUpdateModels True) (committed (SetNotice notice index) w1)))"

text \<open>
  \<open>saveBug\<close> and \<open>saveNotice\<close>: the note is recorded at its old position (or at the last
  operation, or at sequence number 1 in an empty history), then moved when the edit
  names an old position and a new sequence number. \<open>saveNotice\<close> moves only to another
  sequence number.
\<close>

definition lastSequence :: "OperationHistoryState \<Rightarrow> nat" where
  "lastSequence s = (if history s = [] then 1 else sequence (operation (last (history s))))"

definition saveBug :: "ActionEnv \<Rightarrow> NoteEditInfo \<Rightarrow> World \<Rightarrow> Outcome \<times> World" where
  "saveBug env noteEditInfo w =
     (case recordBug env (nei_note noteEditInfo) (noteDetails noteEditInfo)
             (case oldSequence noteEditInfo of Some s \<Rightarrow> s | None \<Rightarrow> lastSequence (store w))
             (oldIndex noteEditInfo) (shouldTakeScreenshot noteEditInfo) w of
        (Rejected, w1) \<Rightarrow> (Rejected, w1)
      | (Resolved, w1) \<Rightarrow>
          if oldSequence noteEditInfo \<noteq> None \<and> oldIndex noteEditInfo \<noteq> None
             \<and> newSequence noteEditInfo \<noteq> None
          then moveBugAction env (the (oldSequence noteEditInfo), the (oldIndex noteEditInfo))
                 (the (newSequence noteEditInfo)) w1
          else (Resolved, w1))"

definition saveNotice :: "ActionEnv \<Rightarrow> NoteEditInfo \<Rightarrow> World \<Rightarrow> Outcome \<times> World" where
  "saveNotice env noteEditInfo w =
     (case recordNotice env (nei_note noteEditInfo) (noteDetails noteEditInfo) (nei_tags noteEditInfo)
             (case oldSequence noteEditInfo of Some s \<Rightarrow> s | None \<Rightarrow> lastSequence (store w))
             (oldIndex noteEditInfo) (shouldTakeScreenshot noteEditInfo) w of
        (Rejected, w1) \<Rightarrow> (Rejected, w1)
      | (Resolved, w1) \<Rightarrow>
          if oldSequence noteEditInfo \<noteq> None \<and> oldIndex noteEditInfo \<noteq> None
             \<and> newSequence noteEditInfo \<noteq> None
             \<and> oldSequence noteEditInfo \<noteq> newSequence noteEditInfo
          then moveNoticeAction env (the (oldSequence noteEditInfo), the (oldIndex noteEditInfo))
                 (the (newSequence noteEditInfo)) w1
          else (Resolved, w1))"



text \<open>
  What the claim says of a recorded note, between the history before the commit and the
  history on top of which the compression callback is set: the entries with the note's
  sequence number list the note among their bugs (or notices), at the recorded index
  when the list reaches that far, and are otherwise what they were; all other entries
  are unchanged.
\<close>

definition listed :: "int \<Rightarrow> Note \<Rightarrow> Note list option \<Rightarrow> bool" where
  "listed index n ns =
     (n \<in> set (orEmpty ns)
      \<and> (0 \<le> index \<and> index < int (length (orEmpty ns)) \<longrightarrow> orEmpty ns ! nat index = n))"






text \<open>
  A store holding two operations, the first with two bugs and two notices, over a service
  with the same links; an edit of the first bug (or notice) that keeps it on its step.
\<close>

definition sampleStore :: OperationHistoryState where
  "sampleStore =
     \<lparr> history =
         [\<lparr> operation = \<lparr> sequence = 1, windowHandle = ''hA'', screenDef = ''Home'',
                          imageFilePath = ''http://127.0.0.1:3002/screenshots/1.png'',
                          keywordSet = {}, inputElements = [] \<rparr>,
            intention = None,
            bugs = Some [(sampleMoved 1)\<lparr>note_id := Some 7\<rparr>, (sampleMoved 1)\<lparr>note_id := Some 8\<rparr>],
            notices = Some [(sampleMoved 1)\<lparr>note_id := Some 5\<rparr>, (sampleMoved 1)\<lparr>note_id := Some 6\<rparr>] \<rparr>,
          sampleItem 2 ''hA''],
       canUpdateModels = False, coverageSources = [], inputElementInfos = [],
       imageCompressionEnabled = True, testResultInfoId = ''r1'' \<rparr>"

definition sampleService :: Backend where
  "sampleService =
     (sampleBackend [])
       \<lparr> testSteps :=
           [(''r1'', 1) \<mapsto> \<lparr> step_intention = Some 3, step_bugs = [Some 7, Some 8],
                              step_notices = [Some 5, Some 6] \<rparr>,
            (''r1'', 2) \<mapsto> \<lparr> step_intention = None, step_bugs = [], step_notices = [] \<rparr>],
         noteStore :=
           [(''r1'', 3) \<mapsto> sampleNote 3 ''intention'', (''r1'', 5) \<mapsto> sampleNote 5 ''notice'',
            (''r1'', 6) \<mapsto> sampleNote 6 ''notice'',
            (''r1'', 7) \<mapsto> sampleNote 7 ''bug'', (''r1'', 8) \<mapsto> sampleNote 8 ''bug''],
         registerStep :=
           (\<lambda>testResultId capturedOperation.
              Inr \<lparr> rs_operation =
                      \<lparr> oj_sequence = 3, oj_windowHandle = ''hA'', oj_screenDef = ''Home'',
                        oj_imageFileUrl = Some ''screenshots/3.png'', oj_keywordTexts = None,
                        oj_inputElements = [] \<rparr>,
                    rs_coverageSource = JNull, rs_inputElementInfo = None \<rparr>),
         compressedStepImage := (\<lambda>testResultId seqNo. Inr (Some ''screenshots/1.webp'')) \<rparr>"

definition sampleWorld :: World where
  "sampleWorld = \<lparr> store = sampleStore, service = sampleService, timers = [] \<rparr>"

definition sampleEnv :: ActionEnv where
  "sampleEnv =
     \<lparr> env_config = sampleConfig, env_saveKeywordSet = False, env_collectKeywords = (\<lambda>source. []),
       env_screenshot = ''image'' \<rparr>"

definition sameStepEdit :: NoteEditInfo where
  "sameStepEdit =
     \<lparr> oldSequence = Some 1, oldIndex = Some 0, newSequence = Some 1, nei_note = ''edited'',
       noteDetails = [], shouldTakeScreenshot = False, nei_tags = [] \<rparr>"






section \<open>Properties of the list helpers\<close>

lemma zip_upt_nth: "zip xs [0..<length xs] = map (\<lambda>i. (xs ! i, i)) [0..<length xs]"
  by (rule nth_equalityI) auto

lemma filterWithIndex_nth:
  "filterWithIndex p xs = map (nth xs) (filter (\<lambda>i. p (xs ! i) i xs) [0..<length xs])"
  by (simp add: filterWithIndex_def zip_upt_nth filter_map comp_def)

lemma mapWithIndex_length [simp]: "length (mapWithIndex f xs) = length xs"
  by (simp add: mapWithIndex_def)

lemma mapWithIndex_nth: "i < length xs \<Longrightarrow> mapWithIndex f xs ! i = f (xs ! i) i"
  by (simp add: mapWithIndex_def)

lemma indexOfFrom_ge: "indexOfFrom xs x k = -1 \<or> int k \<le> indexOfFrom xs x k"
proof (induction xs arbitrary: k)
  case Nil then show ?case by simp
next
  case (Cons y ys)
  show ?case using Cons [of "Suc k"] by auto
qed

lemma indexOfFrom_shift:
  "indexOfFrom xs x k = (if indexOfFrom xs x 0 = -1 then -1 else int k + indexOfFrom xs x 0)"
proof (induction xs arbitrary: k)
  case Nil then show ?case by simp
next
  case (Cons y ys)
  show ?case using Cons [of "Suc k"] Cons [of "Suc 0"] indexOfFrom_ge [of ys x 0] by auto
qed

text \<open>\<open>indexOf\<close> returns a position exactly when no earlier position holds the same value.\<close>

lemma indexOf_first:
  "i < length xs \<Longrightarrow> (indexOf xs (xs ! i) = int i) = (\<forall>k<i. xs ! k \<noteq> xs ! i)"
proof (induction xs arbitrary: i)
  case Nil then show ?case by simp
next
  case (Cons y ys)
  show ?case
  proof (cases i)
    case 0 then show ?thesis by (simp add: indexOf_def)
  next
    case (Suc j)
    then have j: "j < length ys" using Cons.prems by simp
    have ih: "(indexOfFrom ys (ys ! j) 0 = int j) = (\<forall>k<j. ys ! k \<noteq> ys ! j)"
      using Cons.IH [OF j] by (simp add: indexOf_def)
    show ?thesis
    proof (cases "y = ys ! j")
      case True
      then show ?thesis using Suc by (auto simp: indexOf_def)
    next
      case False
      have "(indexOfFrom ys (ys ! j) (Suc 0) = int (Suc j)) = (indexOfFrom ys (ys ! j) 0 = int j)"
        using indexOfFrom_shift [of ys "ys ! j" "Suc 0"] indexOfFrom_ge [of ys "ys ! j" 0] by auto
      then show ?thesis using Suc False ih
        by (auto simp: indexOf_def less_Suc_eq_0_disj)
    qed
  qed
qed

section \<open>Window labels follow first appearance\<close>

lemma kept_eq:
  "filterWithIndex (\<lambda>wh index array. indexOf array wh = int index) hs
     = map (nth hs) (firstSeenIndices hs)"
proof -
  have "filter (\<lambda>i. indexOf hs (hs ! i) = int i) [0..<length hs] = firstSeenIndices hs"
    unfolding firstSeenIndices_def by (rule filter_cong) (auto simp: indexOf_first)
  then show ?thesis by (simp add: filterWithIndex_nth)
qed

lemma firstSeenIndices_sorted: "sorted_wrt (<) (firstSeenIndices hs)"
  unfolding firstSeenIndices_def by (rule sorted_wrt_filter) simp

lemma firstSeenIndices_mem:
  "i < length (firstSeenIndices hs) \<Longrightarrow>
     firstSeenIndices hs ! i < length hs
     \<and> (\<forall>k<firstSeenIndices hs ! i. hs ! k \<noteq> hs ! (firstSeenIndices hs ! i))"
proof -
  assume "i < length (firstSeenIndices hs)"
  then have "firstSeenIndices hs ! i \<in> set (firstSeenIndices hs)" by simp
  then show ?thesis unfolding firstSeenIndices_def by auto
qed

lemma first_occurrence_exists:
  "x \<in> set hs \<Longrightarrow> \<exists>i \<in> set (firstSeenIndices hs). hs ! i = x"
proof -
  assume "x \<in> set hs"
  then obtain j where j: "j < length hs" "hs ! j = x" by (auto simp: in_set_conv_nth)
  define m where "m = (LEAST i. i < length hs \<and> hs ! i = x)"
  have m: "m < length hs \<and> hs ! m = x" unfolding m_def by (rule LeastI [of _ j]) (simp add: j)
  have least: "\<And>k. k < m \<Longrightarrow> \<not> (k < length hs \<and> hs ! k = x)"
    unfolding m_def by (rule not_less_Least)
  have "m \<in> set (firstSeenIndices hs)"
    unfolding firstSeenIndices_def using m least by auto
  then show ?thesis using m by blast
qed

text \<open>
  Claim C3. For every operation history, \<open>updateScreenHistory\<close> keeps one entry per raw
  window handle, in the order in which the handles first appear: there is a strictly
  increasing list of history positions \<open>ks\<close> such that the \<open>i\<close>-th entry carries the handle
  found at position \<open>ks ! i\<close>, no earlier position of the history holds that handle, and
  the entry's label is \<open>window\<close> followed by \<open>i + 1\<close>. Every handle of the history has an
  entry and no handle has two; the raw handle is stored in the entry's value.
\<close>

theorem windowHandles_first_seen_order:
  fixes history :: "OperationWithNotes list"
  defines "hs \<equiv> map (\<lambda>item. windowHandle (operation item)) history"
  defines "ws \<equiv> windowHandles history"
  shows "\<exists>ks. length ks = length ws \<and> sorted_wrt (<) ks
          \<and> (\<forall>i<length ws. ks ! i < length hs
                \<and> wh_value (ws ! i) = hs ! (ks ! i)
                \<and> (\<forall>k<ks ! i. hs ! k \<noteq> hs ! (ks ! i))
                \<and> wh_text (ws ! i) = ''window'' @ showNat (i + 1)
                \<and> wh_available (ws ! i) = False)
          \<and> wh_value ` set ws = set hs \<and> distinct (map wh_value ws)"
proof -
  let ?ks = "firstSeenIndices hs"
  have ws: "ws = mapWithIndex
       (\<lambda>wh index. \<lparr> wh_text = ''window'' @ showNat (index + 1), wh_value = wh, wh_available = False \<rparr>)
       (map (nth hs) ?ks)"
    unfolding ws_def windowHandles_def hs_def [symmetric] by (simp only: kept_eq)
  have len: "length ?ks = length ws" by (simp add: ws)
  have vals: "map wh_value ws = map (nth hs) ?ks"
    by (rule nth_equalityI) (simp_all add: ws mapWithIndex_nth)
  have per: "\<forall>i<length ws. ?ks ! i < length hs
                \<and> wh_value (ws ! i) = hs ! (?ks ! i)
                \<and> (\<forall>k<?ks ! i. hs ! k \<noteq> hs ! (?ks ! i))
                \<and> wh_text (ws ! i) = ''window'' @ showNat (i + 1)
                \<and> wh_available (ws ! i) = False"
    using firstSeenIndices_mem [of _ hs] by (simp add: ws mapWithIndex_nth)
  have "set (map wh_value ws) = set hs"
  proof
    show "set (map wh_value ws) \<subseteq> set hs"
      unfolding vals using firstSeenIndices_mem [of _ hs] by (fastforce simp: in_set_conv_nth)
    show "set hs \<subseteq> set (map wh_value ws)"
      unfolding vals using first_occurrence_exists [of _ hs] by auto
  qed
  then have sets: "wh_value ` set ws = set hs" by simp
  have inj: "inj_on (nth hs) (set ?ks)"
  proof (rule inj_onI)
    fix a b assume a: "a \<in> set ?ks" and b: "b \<in> set ?ks" and eq: "hs ! a = hs ! b"
    have fa: "\<forall>k<a. hs ! k \<noteq> hs ! a" and fb: "\<forall>k<b. hs ! k \<noteq> hs ! b"
      using a b unfolding firstSeenIndices_def by auto
    show "a = b"
    proof (rule ccontr)
      assume "a \<noteq> b"
      then consider "a < b" | "b < a" by linarith
      then show False using fa fb eq by cases auto
    qed
  qed
  have "distinct ?ks" unfolding firstSeenIndices_def by simp
  then have dist: "distinct (map wh_value ws)" unfolding vals using inj by (simp add: distinct_map)
  show ?thesis using len firstSeenIndices_sorted [of hs] per sets dist by blast
qed

text \<open>
  The theorem at a history of five operations in three windows, interleaved:
  the labels are \<open>window1\<close>, \<open>window2\<close>, \<open>window3\<close> for the handles in first-seen order.
\<close>

theorem windowHandles_first_seen_order_witness:
  "(\<exists>ks. length ks = length (windowHandles sampleHistory) \<and> sorted_wrt (<) ks
      \<and> (\<forall>i<length (windowHandles sampleHistory).
            ks ! i < length (map (\<lambda>item. windowHandle (operation item)) sampleHistory)
            \<and> wh_value (windowHandles sampleHistory ! i)
                = map (\<lambda>item. windowHandle (operation item)) sampleHistory ! (ks ! i)
            \<and> (\<forall>k<ks ! i. map (\<lambda>item. windowHandle (operation item)) sampleHistory ! k
                  \<noteq> map (\<lambda>item. windowHandle (operation item)) sampleHistory ! (ks ! i))
            \<and> wh_text (windowHandles sampleHistory ! i) = ''window'' @ showNat (i + 1)
            \<and> wh_available (windowHandles sampleHistory ! i) = False)
      \<and> wh_value ` set (windowHandles sampleHistory)
          = set (map (\<lambda>item. windowHandle (operation item)) sampleHistory)
      \<and> distinct (map wh_value (windowHandles sampleHistory)))
   \<and> windowHandles sampleHistory
       = [\<lparr> wh_text = ''window1'', wh_value = ''hA'', wh_available = False \<rparr>,
          \<lparr> wh_text = ''window2'', wh_value = ''hB'', wh_available = False \<rparr>,
          \<lparr> wh_text = ''window3'', wh_value = ''hC'', wh_available = False \<rparr>]"
proof (rule conjI)
  show "windowHandles sampleHistory
       = [\<lparr> wh_text = ''window1'', wh_value = ''hA'', wh_available = False \<rparr>,
          \<lparr> wh_text = ''window2'', wh_value = ''hB'', wh_available = False \<rparr>,
          \<lparr> wh_text = ''window3'', wh_value = ''hC'', wh_available = False \<rparr>]"
    by code_simp
qed (rule windowHandles_first_seen_order)
section \<open>Layout of the generated README\<close>

lemma uriUnescaped_plain: "uriUnescaped c \<Longrightarrow> plainUnit c"
  by (auto simp: uriUnescaped_def lit_def plainUnit_def leadSurrogate_def trailSurrogate_def)

lemma hexDigits_unescaped: "list_all uriUnescaped (lit ''0123456789ABCDEF'')"
  by (simp add: lit_def uriUnescaped_def)

lemma hexDigit_plain: "d < 16 \<Longrightarrow> plainUnit (hexDigit d)"
proof -
  assume "d < 16"
  moreover have "length (lit ''0123456789ABCDEF'') = 16" by (simp add: lit_def)
  ultimately have "uriUnescaped (hexDigit d)"
    using hexDigits_unescaped by (simp add: hexDigit_def list_all_length)
  then show ?thesis by (rule uriUnescaped_plain)
qed

lemma percentOctet_plain: "list_all plainUnit (percentOctet octet)"
proof -
  have "unat octet < 2 ^ LENGTH(8)" by (rule unsigned_less)
  then have "unat octet < 256" by simp
  then have "unat octet div 16 < 16" by simp
  moreover have "unat octet mod 16 < 16" by simp
  moreover have "plainUnit 0x25"
    by (simp add: plainUnit_def leadSurrogate_def trailSurrogate_def)
  ultimately show ?thesis by (simp add: percentOctet_def hexDigit_plain)
qed

lemma escaped_plain: "list_all plainUnit (escaped cp)"
  by (simp add: escaped_def list_all_iff) (use percentOctet_plain in \<open>auto simp: list_all_iff\<close>)

lemma encodeURI_plain: "encodeURI s = Some t \<Longrightarrow> list_all plainUnit t"
proof (induction s arbitrary: t rule: encodeURI.induct)
  case 1 then show ?case by simp
next
  case (2 c)
  then show ?case using uriUnescaped_plain [of c] escaped_plain [of "unat c"]
    by (auto split: if_splits)
next
  case (3 c d ds)
  then show ?case
    using uriUnescaped_plain [of c] escaped_plain [of "unat c"] escaped_plain [of "codePointOfPair c d"]
    by (auto split: if_splits)
qed

lemma plain_wellFormed: "list_all plainUnit t \<Longrightarrow> wellFormed t"
  by (induction t rule: wellFormed.induct) (auto simp: plainUnit_def)

lemma encodeURI_None: "(encodeURI s = None) = (\<not> wellFormed s)"
proof (induction s rule: encodeURI.induct)
  case 1 then show ?case by simp
next
  case (2 c)
  then show ?case using uriUnescaped_plain [of c] by (auto simp: plainUnit_def)
next
  case (3 c d ds)
  then show ?case using uriUnescaped_plain [of c] by (auto simp: plainUnit_def)
qed

lemma wellFormed_plain_append: "list_all plainUnit a \<Longrightarrow> wellFormed (a @ s) = wellFormed s"
proof (induction a)
  case Nil then show ?case by simp
next
  case (Cons c a)
  then show ?case by (cases "a @ s") (auto simp: plainUnit_def)
qed

lemma wellFormed_append_plain: "list_all plainUnit b \<Longrightarrow> wellFormed (s @ b) = wellFormed s"
proof (induction s rule: wellFormed.induct)
  case 1 then show ?case by (simp add: plain_wellFormed)
next
  case (2 c)
  then have wb: "wellFormed b" by (rule plain_wellFormed)
  show ?case
  proof (cases b)
    case Nil then show ?thesis by simp
  next
    case (Cons d ds)
    then have "plainUnit d" using 2 by simp
    then show ?thesis using wb Cons by (auto simp: plainUnit_def)
  qed
next
  case (3 c d ds)
  then show ?case by auto
qed

lemma link_wellFormed:
  "wellFormed (lit ''./'' @ name @ lit ''.html'') = wellFormed name"
proof -
  have a: "list_all plainUnit (lit ''./'')"
    by (simp add: lit_def plainUnit_def leadSurrogate_def trailSurrogate_def)
  have b: "list_all plainUnit (lit ''.html'')"
    by (simp add: lit_def plainUnit_def leadSurrogate_def trailSurrogate_def)
  show ?thesis using wellFormed_plain_append [OF a] wellFormed_append_plain [OF b] by simp
qed

text \<open>The link of a name is encoded twice; that fails exactly for an ill-formed name.\<close>

lemma href_None:
  "(Option.bind (encodeURI (lit ''./'' @ name @ lit ''.html'')) encodeURI = None)
     = (\<not> wellFormed name)"
proof (cases "encodeURI (lit ''./'' @ name @ lit ''.html'')")
  case None
  then show ?thesis
    using encodeURI_None [of "lit ''./'' @ name @ lit ''.html''"] link_wellFormed [of name]
    by simp
next
  case (Some once)
  then have "wellFormed once" using encodeURI_plain plain_wellFormed by blast
  then have "encodeURI once \<noteq> None" using encodeURI_None by blast
  moreover have "wellFormed name" using Some encodeURI_None link_wellFormed
    by (metis option.distinct(1))
  ultimately show ?thesis using Some by simp
qed

lemma those_None: "(those xs = None) = (None \<in> set xs)"
  by (induction xs) (auto split: option.splits)

lemma those_Some:
  "those xs = Some ys \<Longrightarrow> length ys = length xs \<and> (\<forall>i<length xs. xs ! i = Some (ys ! i))"
proof (induction xs arbitrary: ys)
  case Nil then show ?case by simp
next
  case (Cons x xs)
  then show ?case by (auto split: option.splits simp: nth_Cons split: nat.splits)
qed


lemma join_eq_Nil: "join sep rs = [] \<Longrightarrow> rs = [] \<or> hd rs = []"
  by (induction sep rs rule: join.induct) auto

lemma testSuiteRow_None: "(testSuiteRow e i = None) = (\<not> wellFormed (fst e))"
  using href_None [of "fst e"] by (cases e) (auto simp: testSuiteRow_def split: option.splits)

lemma pageObjectRow_None: "(pageObjectRow e i = None) = (\<not> wellFormed (snd e))"
  using href_None [of "snd e"] by (cases e) (auto simp: pageObjectRow_def split: option.splits)

lemma lit_bar: "lit ''|'' \<noteq> []"
  by (simp add: lit_def)

lemma testSuiteRow_Some:
  "testSuiteRow e i = Some r \<Longrightarrow>
     r \<noteq> [] \<and> (\<exists>href. Option.bind (encodeURI (lit ''./'' @ fst e @ lit ''.html'')) encodeURI = Some href
       \<and> r = lit ''|'' @ lit (showNat (i + 1)) @ lit ''|<a href='' @ dquote @ href @ dquote
             @ lit ''>'' @ fst e @ lit ''</a>|'' @ snd e @ lit ''|'')"
  using lit_bar by (cases e) (auto simp: testSuiteRow_def split: option.splits)

lemma pageObjectRow_Some:
  "pageObjectRow e i = Some r \<Longrightarrow>
     r \<noteq> [] \<and> (\<exists>href. Option.bind (encodeURI (lit ''./'' @ snd e @ lit ''.html'')) encodeURI = Some href
       \<and> r = lit ''|'' @ lit (showNat (i + 1)) @ lit ''|<a href='' @ dquote @ href @ dquote
             @ lit ''>'' @ snd e @ lit ''</a>|'' @ fst e @ lit ''|'')"
  using lit_bar by (cases e) (auto simp: pageObjectRow_def split: option.splits)

text \<open>The rows of a table: none when a row throws, else one row per entry, in order.\<close>

lemma rows_None:
  assumes "\<And>e i. (row e i = None) = (\<not> wellFormed (name e))"
  shows "(those (mapWithIndex row es) = None) = (\<exists>e \<in> set es. \<not> wellFormed (name e))"
proof -
  have "(None \<in> set (mapWithIndex row es)) = (\<exists>i<length es. row (es ! i) i = None)"
    by (auto simp: in_set_conv_nth mapWithIndex_nth)
  also have "\<dots> = (\<exists>e \<in> set es. \<not> wellFormed (name e))"
    using assms by (metis in_set_conv_nth)
  finally show ?thesis by (simp add: those_None)
qed

lemma rows_Some:
  assumes "those (mapWithIndex row es) = Some rs"
  shows "length rs = length es \<and> (\<forall>i<length es. row (es ! i) i = Some (rs ! i))"
  using those_Some [OF assms] by (simp add: mapWithIndex_nth)

lemma rows_joined:
  assumes "those (mapWithIndex row es) = Some rs" and "\<And>e i r. row e i = Some r \<Longrightarrow> r \<noteq> []"
  shows "(0 < length (join sep rs)) = (es \<noteq> [])"
proof (cases es)
  case Nil
  then show ?thesis using rows_Some [OF assms(1)] by simp
next
  case (Cons e es')
  have l: "length rs = length es" and r: "row (es ! 0) 0 = Some (rs ! 0)"
    using rows_Some [OF assms(1)] Cons by auto
  have ne: "rs \<noteq> []" using l Cons by auto
  then have "hd rs \<noteq> []"
    using assms(2) [OF r] by (simp add: hd_conv_nth)
  then have "join sep rs \<noteq> []" using ne join_eq_Nil [of sep rs] by auto
  then show ?thesis using Cons by simp
qed

text \<open>
  Claim C10, as amended. When no test suite name and no page object alias has an unpaired
  surrogate, the README is the heading \<open>## Test suites\<close>, the test suite table, an empty
  line, the heading \<open>## Page objects\<close>, the page object table and a final newline. The
  table of a map with no entry is empty: neither header nor rows. The table of a map with
  entries is its header followed by one row per entry, joined by newlines, in the order
  of the entries; the \<open>i\<close>-th row (from zero) is numbered \<open>i + 1\<close> and links to the twice
  encoded name. When some name or alias has an unpaired surrogate, \<open>generate\<close> throws and
  there is no README.
\<close>

theorem generate_layout:
  "if (\<forall>entry \<in> set suites. wellFormed (fst entry)) \<and> (\<forall>entry \<in> set pages. wellFormed (snd entry))
   then \<exists>suiteRows pageRows.
     generate suites pages =
       Some (lit ''## Test suites''
             @ (if suites = [] then [] else testSuiteHeader @ join newline suiteRows)
             @ newline @ newline
             @ lit ''## Page objects''
             @ (if pages = [] then [] else pageObjectHeader @ join newline pageRows)
             @ newline)
     \<and> length suiteRows = length suites
     \<and> (\<forall>i<length suites. \<exists>href.
            Option.bind (encodeURI (lit ''./'' @ fst (suites ! i) @ lit ''.html'')) encodeURI = Some href
            \<and> suiteRows ! i =
                lit ''|'' @ lit (showNat (i + 1)) @ lit ''|<a href='' @ dquote @ href @ dquote
                @ lit ''>'' @ fst (suites ! i) @ lit ''</a>|'' @ snd (suites ! i) @ lit ''|'')
     \<and> length pageRows = length pages
     \<and> (\<forall>i<length pages. \<exists>href.
            Option.bind (encodeURI (lit ''./'' @ snd (pages ! i) @ lit ''.html'')) encodeURI = Some href
            \<and> pageRows ! i =
                lit ''|'' @ lit (showNat (i + 1)) @ lit ''|<a href='' @ dquote @ href @ dquote
                @ lit ''>'' @ snd (pages ! i) @ lit ''</a>|'' @ fst (pages ! i) @ lit ''|'')
   else generate suites pages = None"
proof (cases "(\<forall>entry \<in> set suites. wellFormed (fst entry)) \<and> (\<forall>entry \<in> set pages. wellFormed (snd entry))")
  case False
  then have "those (mapWithIndex testSuiteRow suites) = None
             \<or> those (mapWithIndex pageObjectRow pages) = None"
    using rows_None [of testSuiteRow fst suites, OF testSuiteRow_None]
          rows_None [of pageObjectRow snd pages, OF pageObjectRow_None] by auto
  then have "generate suites pages = None"
    by (auto simp: generate_def buildTestSuiteTable_def buildPageObjectTable_def Let_def
          split: option.splits)
  then show ?thesis using False by simp
next
  case True
  obtain sr where sr: "those (mapWithIndex testSuiteRow suites) = Some sr"
    using True rows_None [of testSuiteRow fst suites, OF testSuiteRow_None] by auto
  obtain pr where pr: "those (mapWithIndex pageObjectRow pages) = Some pr"
    using True rows_None [of pageObjectRow snd pages, OF pageObjectRow_None] by auto
  have s: "(0 < length (join newline sr)) = (suites \<noteq> [])"
    using rows_joined [OF sr] testSuiteRow_Some by blast
  have p: "(0 < length (join newline pr)) = (pages \<noteq> [])"
    using rows_joined [OF pr] pageObjectRow_Some by blast
  have s': "(join newline sr = []) = (suites = [])" using s by auto
  have p': "(join newline pr = []) = (pages = [])" using p by auto
  have g: "generate suites pages =
       Some (lit ''## Test suites''
             @ (if suites = [] then [] else testSuiteHeader @ join newline sr)
             @ newline @ newline
             @ lit ''## Page objects''
             @ (if pages = [] then [] else pageObjectHeader @ join newline pr)
             @ newline)"
    unfolding generate_def buildTestSuiteTable_def buildPageObjectTable_def Let_def sr pr
    using s' p' by (cases "suites = []"; cases "pages = []"; simp)
  have lsr: "length sr = length suites" using rows_Some [OF sr] by simp
  have lpr: "length pr = length pages" using rows_Some [OF pr] by simp
  have rs: "\<forall>i<length suites. \<exists>href.
            Option.bind (encodeURI (lit ''./'' @ fst (suites ! i) @ lit ''.html'')) encodeURI = Some href
            \<and> sr ! i =
                lit ''|'' @ lit (showNat (i + 1)) @ lit ''|<a href='' @ dquote @ href @ dquote
                @ lit ''>'' @ fst (suites ! i) @ lit ''</a>|'' @ snd (suites ! i) @ lit ''|''"
    using rows_Some [OF sr] testSuiteRow_Some by blast
  have rp: "\<forall>i<length pages. \<exists>href.
            Option.bind (encodeURI (lit ''./'' @ snd (pages ! i) @ lit ''.html'')) encodeURI = Some href
            \<and> pr ! i =
                lit ''|'' @ lit (showNat (i + 1)) @ lit ''|<a href='' @ dquote @ href @ dquote
                @ lit ''>'' @ snd (pages ! i) @ lit ''</a>|'' @ fst (pages ! i) @ lit ''|''"
    using rows_Some [OF pr] pageObjectRow_Some by blast
  have "\<exists>suiteRows pageRows.
     generate suites pages =
       Some (lit ''## Test suites''
             @ (if suites = [] then [] else testSuiteHeader @ join newline suiteRows)
             @ newline @ newline
             @ lit ''## Page objects''
             @ (if pages = [] then [] else pageObjectHeader @ join newline pageRows)
             @ newline)
     \<and> length suiteRows = length suites
     \<and> (\<forall>i<length suites. \<exists>href.
            Option.bind (encodeURI (lit ''./'' @ fst (suites ! i) @ lit ''.html'')) encodeURI = Some href
            \<and> suiteRows ! i =
                lit ''|'' @ lit (showNat (i + 1)) @ lit ''|<a href='' @ dquote @ href @ dquote
                @ lit ''>'' @ fst (suites ! i) @ lit ''</a>|'' @ snd (suites ! i) @ lit ''|'')
     \<and> length pageRows = length pages
     \<and> (\<forall>i<length pages. \<exists>href.
            Option.bind (encodeURI (lit ''./'' @ snd (pages ! i) @ lit ''.html'')) encodeURI = Some href
            \<and> pageRows ! i =
                lit ''|'' @ lit (showNat (i + 1)) @ lit ''|<a href='' @ dquote @ href @ dquote
                @ lit ''>'' @ snd (pages ! i) @ lit ''</a>|'' @ fst (pages ! i) @ lit ''|'')"
    apply (rule exI [of _ sr], rule exI [of _ pr])
    using g lsr lpr rs rp by (intro conjI)
  then show ?thesis using True by simp
qed

text \<open>Evaluation of the sample.\<close>

lemma showNat_1: "showNat (Suc 0) = ''1''" by code_simp
lemma showNat_2: "showNat (Suc (Suc 0)) = ''2''" by code_simp

lemmas readme_defs =
  generate_def buildTestSuiteTable_def buildPageObjectTable_def testSuiteRow_def pageObjectRow_def
  testSuiteHeader_def pageObjectHeader_def newline_def dquote_def mapWithIndex_def lit_def
  uriUnescaped_def leadSurrogate_def trailSurrogate_def escaped_def utf8_def percentOctet_def
  hexDigit_def codePointOfPair_def Let_def

lemma sample_eval:
  "generate sampleSuites []
     = Some (lit ''## Test suites'' @ newline @ newline @ lit ''|#|name|top page url|'' @ newline
       @ lit ''|:--|:--|:--|'' @ newline
       @ lit ''|1|<a href='' @ dquote @ lit ''./login.html'' @ dquote @ lit ''>login</a>|http://host/a|''
       @ newline
       @ lit ''|2|<a href='' @ dquote @ lit ''./to%2520do.html'' @ dquote @ lit ''>to do</a>|http://host/b|''
       @ newline @ newline @ lit ''## Page objects'' @ newline)"
  by (simp add: readme_defs sampleSuites_def showNat_1 showNat_2 upt_rec)


text \<open>
  The theorem at two test suites and no page object: two numbered rows under the first
  heading, and the second heading alone.
\<close>

theorem generate_layout_witness:
  "wellFormed (lit ''login'') \<and> wellFormed (lit ''to do'')
   \<and> (\<exists>suiteRows.
         generate sampleSuites [] =
           Some (lit ''## Test suites'' @ testSuiteHeader @ join newline suiteRows
                 @ newline @ newline @ lit ''## Page objects'' @ newline)
         \<and> length suiteRows = 2)
   \<and> generate sampleSuites []
     = Some (lit ''## Test suites'' @ newline @ newline @ lit ''|#|name|top page url|'' @ newline
       @ lit ''|:--|:--|:--|'' @ newline
       @ lit ''|1|<a href='' @ dquote @ lit ''./login.html'' @ dquote @ lit ''>login</a>|http://host/a|''
       @ newline
       @ lit ''|2|<a href='' @ dquote @ lit ''./to%2520do.html'' @ dquote @ lit ''>to do</a>|http://host/b|''
       @ newline @ newline @ lit ''## Page objects'' @ newline)"
proof (intro conjI)
  show w1: "wellFormed (lit ''login'')"
    by (simp add: lit_def leadSurrogate_def trailSurrogate_def)
  show w2: "wellFormed (lit ''to do'')"
    by (simp add: lit_def leadSurrogate_def trailSurrogate_def)
  have wf: "\<forall>entry \<in> set sampleSuites. wellFormed (fst entry)"
    using w1 w2 by (simp add: sampleSuites_def)
  have ne: "sampleSuites \<noteq> []" and len: "length sampleSuites = 2"
    by (simp_all add: sampleSuites_def)
  have "\<forall>entry \<in> set ([] :: (jsstring \<times> jsstring) list). wellFormed (snd entry)" by simp
  then show "\<exists>suiteRows.
         generate sampleSuites [] =
           Some (lit ''## Test suites'' @ testSuiteHeader @ join newline suiteRows
                 @ newline @ newline @ lit ''## Page objects'' @ newline)
         \<and> length suiteRows = 2"
    using generate_layout [of sampleSuites "[]"] wf ne len by auto
  show "generate sampleSuites []
     = Some (lit ''## Test suites'' @ newline @ newline @ lit ''|#|name|top page url|'' @ newline
       @ lit ''|:--|:--|:--|'' @ newline
       @ lit ''|1|<a href='' @ dquote @ lit ''./login.html'' @ dquote @ lit ''>login</a>|http://host/a|''
       @ newline
       @ lit ''|2|<a href='' @ dquote @ lit ''./to%2520do.html'' @ dquote @ lit ''>to do</a>|http://host/b|''
       @ newline @ newline @ lit ''## Page objects'' @ newline)"
    by (simp add: readme_defs sampleSuites_def showNat_1 showNat_2 upt_rec)
qed

text \<open>
  Claim C10 as stated fails for a map whose only test suite is named by the single code
  unit \<open>D800\<close>: the encoding of its link throws, and so does \<open>generate\<close>.
\<close>

theorem generate_unpaired_surrogate_counterexample:
  "\<not> wellFormed [0xD800]
   \<and> encodeURI (lit ''./'' @ [0xD800] @ lit ''.html'') = None
   \<and> generate [([0xD800], lit ''http://host/a'')] [] = None"
  by (simp add: readme_defs)


section \<open>Failure classification of the repository operations\<close>

text \<open>
  Claim C5, as amended. Every operation of \<open>TestTargetRepository\<close> (get, post, patch,
  delete) and of \<open>ProjectRepository\<close> returns a result for every behaviour of the REST
  client: the connection-refused failure when the request throws, the access failure
  carrying the response when the status is not the one the operation accepts (204 for
  the deletion, 200 for the others), and the success otherwise; the two failures are
  different values. The settings operations of \<open>RepositoryServiceDispatcher\<close> also return
  a reply for every behaviour of their client, but know one failure only: every throw
  gives the error \<open>repository_service_not_found\<close>, and every body is a success.
\<close>

theorem repository_failure_classification:
  "classifies (httpGet c (''/test-targets/'' @ ident)) 200 dataOf (getTestTarget c ident)
   \<and> classifies (httpPost c ''/test-targets'' body) 200 dataOf (postTestTarget c body)
   \<and> classifies (httpPatch c (''/test-targets/'' @ ident) body) 200 dataOf
        (patchTestTarget c ident body)
   \<and> classifies (httpDelete c (''/test-targets/'' @ ident)) 204 r_data (deleteTestTarget c ident)
   \<and> classifies (httpPost c (''/projects/'' @ projectId @ ''/export'') body) 200 dataOf
        (postProjectForExport c projectId body)
   \<and> classifies (httpGet c ''/projects'') 200 dataOf (getProjects c)
   \<and> classifies (httpGet c (''/projects/'' @ projectId)) 200 dataOf (getProject c projectId)
   \<and> classifies (httpPost c ''/projects'' (JObj [(''name'', JStr [])])) 200 dataOf (postProject c)
   \<and> classifies (httpPut c (''/projects/'' @ projectId) body) 200 dataOf (putProject c projectId body)
   \<and> RepositoryAccessFailure response \<noteq> ConnectionRefusedFailure
   \<and> catchesAll (legacyGet lc (buildAPIURL cfg ''/projects/1/configs'')) (getSettings cfg lc)
   \<and> catchesAll (legacyPut lc (buildAPIURL cfg ''/projects/1/configs'') body) (saveSettings cfg lc body)
   \<and> catchesAll (legacyGet lc (buildAPIURL cfg ''/projects/1/device-configs''))
        (getDeviceSettings cfg lc)"
proof -
  have cl: "\<And>outcome accepted argument. classifies outcome accepted argument
       (case outcome of
          Inl error \<Rightarrow> ConnectionRefusedFailure
        | Inr response \<Rightarrow>
            if r_status response \<noteq> accepted then RepositoryAccessFailure response
            else RepositoryAccessSuccess (argument response))"
    by (simp add: classifies_def split: sum.splits)
  have ca: "\<And>outcome. catchesAll outcome
       (case outcome of
          Inl error \<Rightarrow> Failed ''repository_service_not_found'' ''Repository service is not found.''
        | Inr data \<Rightarrow> Succeeded data)"
    by (simp add: catchesAll_def split: sum.splits)
  show ?thesis
    unfolding getTestTarget_def postTestTarget_def patchTestTarget_def deleteTestTarget_def
      postProjectForExport_def getProjects_def getProject_def postProject_def putProject_def
      getSettings_def saveSettings_def getDeviceSettings_def
    by (intro conjI cl ca) simp
qed

text \<open>
  The theorem at clients that refuse the connection, answer with status 500, with
  status 200 and with status 204: the deletion succeeds on 204 only, the reading on 200
  only.
\<close>

theorem repository_failure_classification_witness:
  "getTestTarget (constantClient (Inl TransportError)) ''t1'' = ConnectionRefusedFailure
   \<and> getTestTarget (constantClient (Inr \<lparr> r_status = 500, r_data = errorBody \<rparr>)) ''t1''
       = RepositoryAccessFailure \<lparr> r_status = 500, r_data = errorBody \<rparr>
   \<and> getTestTarget (constantClient (Inr \<lparr> r_status = 200, r_data = JStr ''target'' \<rparr>)) ''t1''
       = RepositoryAccessSuccess (JObj [(''data'', JStr ''target'')])
   \<and> deleteTestTarget (constantClient (Inl TransportError)) ''t1'' = ConnectionRefusedFailure
   \<and> deleteTestTarget (constantClient (Inr \<lparr> r_status = 204, r_data = JUndefined \<rparr>)) ''t1''
       = RepositoryAccessSuccess JUndefined
   \<and> deleteTestTarget (constantClient (Inr \<lparr> r_status = 200, r_data = JStr ''target'' \<rparr>)) ''t1''
       = RepositoryAccessFailure \<lparr> r_status = 200, r_data = JStr ''target'' \<rparr>
   \<and> getSettings sampleConfig (throwingClient TransportError)
       = Failed ''repository_service_not_found'' ''Repository service is not found.''"
proof -
  note a = repository_failure_classification
          [of "constantClient (Inl TransportError)" "''t1''" JNull "''p''" undefined
              "throwingClient TransportError" sampleConfig]
  note b = repository_failure_classification
          [of "constantClient (Inr \<lparr> r_status = 500, r_data = errorBody \<rparr>)" "''t1''" JNull "''p''"
              undefined "throwingClient TransportError" sampleConfig]
  note c = repository_failure_classification
          [of "constantClient (Inr \<lparr> r_status = 200, r_data = JStr ''target'' \<rparr>)" "''t1''" JNull
              "''p''" undefined "throwingClient TransportError" sampleConfig]
  note d = repository_failure_classification
          [of "constantClient (Inr \<lparr> r_status = 204, r_data = JUndefined \<rparr>)" "''t1''" JNull
              "''p''" undefined "throwingClient TransportError" sampleConfig]
  have 1: "getTestTarget (constantClient (Inl TransportError)) ''t1'' = ConnectionRefusedFailure"
    using conjunct1 [OF a] by (simp add: classifies_def constantClient_def)
  have 2: "getTestTarget (constantClient (Inr \<lparr> r_status = 500, r_data = errorBody \<rparr>)) ''t1''
       = RepositoryAccessFailure \<lparr> r_status = 500, r_data = errorBody \<rparr>"
    using conjunct1 [OF b] by (simp add: classifies_def constantClient_def)
  have 3: "getTestTarget (constantClient (Inr \<lparr> r_status = 200, r_data = JStr ''target'' \<rparr>)) ''t1''
       = RepositoryAccessSuccess (JObj [(''data'', JStr ''target'')])"
    using conjunct1 [OF c] by (simp add: classifies_def constantClient_def dataOf_def)
  have 4: "deleteTestTarget (constantClient (Inl TransportError)) ''t1'' = ConnectionRefusedFailure"
    using conjunct1 [OF conjunct2 [OF conjunct2 [OF conjunct2 [OF a]]]]
    by (simp add: classifies_def constantClient_def)
  have 5: "deleteTestTarget (constantClient (Inr \<lparr> r_status = 204, r_data = JUndefined \<rparr>)) ''t1''
       = RepositoryAccessSuccess JUndefined"
    using conjunct1 [OF conjunct2 [OF conjunct2 [OF conjunct2 [OF d]]]]
    by (simp add: classifies_def constantClient_def)
  have 6: "deleteTestTarget (constantClient (Inr \<lparr> r_status = 200, r_data = JStr ''target'' \<rparr>)) ''t1''
       = RepositoryAccessFailure \<lparr> r_status = 200, r_data = JStr ''target'' \<rparr>"
    using conjunct1 [OF conjunct2 [OF conjunct2 [OF conjunct2 [OF c]]]]
    by (simp add: classifies_def constantClient_def)
  have 7: "getSettings sampleConfig (throwingClient TransportError)
       = Failed ''repository_service_not_found'' ''Repository service is not found.''"
    by (simp add: getSettings_def throwingClient_def)
  show ?thesis using 1 2 3 4 5 6 7 by blast
qed

text \<open>
  Claim C5 as stated fails for \<open>getSettings\<close>: a client that throws on a response of
  status 500 gets the same reply as one whose connection was refused, and a client that
  returns the body of that response gets a success.
\<close>

theorem getSettings_one_failure_kind_counterexample:
  "getSettings sampleConfig (throwingClient (StatusError 500))
     = getSettings sampleConfig (throwingClient TransportError)
   \<and> getSettings sampleConfig (returningClient errorBody) = Succeeded errorBody"
  by (simp add: getSettings_def throwingClient_def returningClient_def)

section \<open>The error code of an empty generation\<close>

text \<open>
  Claim C2, as amended. Let the generator report every request without source operations
  with the message \<open>generate_test_suite_failed\<close>. Then for every request whose sources
  hold no operation \<open>generateTestScripts\<close> fails with the message of the key
  \<open>error.operation_history.save_test_scripts_no_section_error\<close>, which differs from the
  key of the no-operation code. The action has no mode without optimization: it hands
  \<open>optimize = true\<close> to every generator, for every request.
\<close>

theorem generateTestScripts_empty_error_codes:
  assumes "\<And>resolver settings params.
             concat (map gs_history (sources params)) = []
               \<Longrightarrow> generateScripts resolver settings params = Inl ''generate_test_suite_failed''"
    and "concat (map gs_history (gp_sources payload)) = []"
  shows "generateTestScripts message url generateScripts payload
           = Inl (message ''error.operation_history.save_test_scripts_no_section_error'')
         \<and> ''error.operation_history.save_test_scripts_no_section_error''
           \<noteq> ''error.operation_history.save_test_scripts_no_operation_error''
         \<and> generateTestScripts message url generateScripts anyPayload
           = generateTestScripts message url
               (\<lambda>resolver settings. generateScripts resolver (settings\<lparr>optimize := True\<rparr>)) anyPayload"
proof (intro conjI)
  have "generateScripts (imageUrlResolver url)
          \<lparr> optimize = True,
            testData = \<lparr> useDataDriven = useDataDriven (gp_option payload),
                         maxGeneration = maxGeneration (gp_option payload) \<rparr> \<rparr>
          \<lparr> testResultIdOf = gp_testResultId payload, projectIdParam = gp_projectId payload,
            sources = gp_sources payload \<rparr>
        = Inl ''generate_test_suite_failed''"
    using assms(2) by (intro assms(1)) simp
  then show "generateTestScripts message url generateScripts payload
           = Inl (message ''error.operation_history.save_test_scripts_no_section_error'')"
    by (simp add: generateTestScripts_def)
next
  show "''error.operation_history.save_test_scripts_no_section_error''
           \<noteq> ''error.operation_history.save_test_scripts_no_operation_error''"
    by simp
next
  show "generateTestScripts message url generateScripts anyPayload
           = generateTestScripts message url
               (\<lambda>resolver settings. generateScripts resolver (settings\<lparr>optimize := True\<rparr>)) anyPayload"
    by (simp add: generateTestScripts_def)
qed

text \<open>
  The theorem at the sample generator and a project request with two empty sources and
  data-driven options.
\<close>

theorem generateTestScripts_empty_error_codes_witness:
  "concat (map gs_history (gp_sources emptyProjectRequest)) = []
   \<and> generateTestScripts (\<lambda>key. key) ''http://127.0.0.1:3002'' sampleGenerator emptyProjectRequest
     = Inl ''error.operation_history.save_test_scripts_no_section_error''"
proof -
  have e: "concat (map gs_history (gp_sources emptyProjectRequest)) = []"
    by (simp add: emptyProjectRequest_def)
  have g: "\<And>resolver settings params.
             concat (map gs_history (sources params)) = []
               \<Longrightarrow> sampleGenerator resolver settings params = Inl ''generate_test_suite_failed''"
    by (simp add: sampleGenerator_def)
  show ?thesis
    using conjunct1 [OF generateTestScripts_empty_error_codes
            [of sampleGenerator emptyProjectRequest "\<lambda>key. key" "''http://127.0.0.1:3002''", OF g e]]
          e
    by simp
qed

text \<open>
  Claim C2 as stated fails on its second half, for the action cannot be run without
  optimization: whatever options the empty request carries, it fails with the no-section
  code and never with the no-operation code, and the sample generator, which names the
  mode it is given, is given the optimizing one.
\<close>

theorem generateTestScripts_no_operation_code_counterexample:
  "generateTestScripts (\<lambda>key. key) ''http://127.0.0.1:3002'' sampleGenerator emptyRequest
     = Inl ''error.operation_history.save_test_scripts_no_section_error''
   \<and> (\<forall>option. generateTestScripts (\<lambda>key. key) ''http://127.0.0.1:3002'' sampleGenerator
                  (emptyRequest\<lparr>gp_option := option\<rparr>)
                \<noteq> Inl ''error.operation_history.save_test_scripts_no_operation_error'')
   \<and> generateTestScripts (\<lambda>key. key) ''http://127.0.0.1:3002'' sampleGenerator filledRequest
     = Inr ''optimized.zip''"
  by (simp add: generateTestScripts_def sampleGenerator_def emptyRequest_def filledRequest_def)

section \<open>Sequence numbers of a restored history\<close>






section \<open>Requests, replies and list surgery\<close>

lemma refusals_Nil_id: "refusals b = [] \<Longrightarrow> b\<lparr>refusals := []\<rparr> = b"
  by (cases b) simp

lemma request_Inr:
  "(request serve b = (Inr a, b')) = (accepted b \<and> serve (served b) = (Inr a, b'))"
  by (cases "refusals b") (auto simp: request_def accepted_def served_def refusals_Nil_id)

lemma request_refused:
  "\<not> accepted b \<Longrightarrow> request serve b = (Inl TransportError, served b)"
  by (cases "refusals b") (auto simp: request_def accepted_def served_def refusals_Nil_id)

lemma request_accepted:
  "accepted b \<Longrightarrow> request serve b = serve (served b)"
  by (cases "refusals b") (auto simp: request_def accepted_def served_def refusals_Nil_id)

lemma served_fields [simp]:
  "testSteps (served b) = testSteps b" "noteStore (served b) = noteStore b"
  "nextNoteId (served b) = nextNoteId b" "imagePathOf (served b) = imagePathOf b"
  "projects (served b) = projects b" "projectIdOf (served b) = projectIdOf b"
  "nextProject (served b) = nextProject b" "refusals (served b) = tl (refusals b)"
  "registerStep (served b) = registerStep b"
  "compressedNoteImage (served b) = compressedNoteImage b"
  "compressedStepImage (served b) = compressedStepImage b"
  by (simp_all add: served_def)

lemma thenR_Inr:
  "(thenR m f b = (Inr r, b')) = (\<exists>a b1. m b = (Inr a, b1) \<and> f a b1 = (Inr r, b'))"
  by (auto simp: thenR_def split: prod.splits sum.splits)

lemma returnR_Inr: "(returnR a b = (Inr r, b')) = (r = a \<and> b' = b)"
  by (auto simp: returnR_def)

lemma catchReply_Succeeded:
  "(catchReply body code msg b = (Succeeded a, b')) = (body b = (Inr a, b'))"
  by (auto simp: catchReply_def split: prod.splits sum.splits)

lemma httpGetTestStep_Inr:
  "(httpGetTestStep t s b = (Inr st, b')) = (accepted b \<and> testSteps b (t, s) = Some st \<and> b' = served b)"
  by (auto simp: httpGetTestStep_def request_Inr split: option.splits)

lemma patchStep_Inr:
  "(patchStep t s change b = (Inr st', b')) =
     (accepted b \<and> (\<exists>st. testSteps b (t, s) = Some st \<and> st' = change st
        \<and> b' = (served b)\<lparr>testSteps := (testSteps b)((t, s) \<mapsto> change st)\<rparr>))"
  by (auto simp: patchStep_def request_Inr split: option.splits)

lemma httpPostNote_Inr:
  "(httpPostNote t body b = (Inr saved, b')) =
     (accepted b
      \<and> saved = \<lparr> nj_id = nextNoteId b, nj_type = nb_type body, nj_value = nb_value body,
                   nj_details = nb_details body,
                   nj_imageFileUrl = (case nb_imageData body of None \<Rightarrow> None
                                      | Some screenshot \<Rightarrow> Some (imagePathOf b (nextNoteId b))),
                   nj_tags = nb_tags body \<rparr>
      \<and> b' = (served b)\<lparr>noteStore := (noteStore b)((t, nextNoteId b) \<mapsto> saved),
                         nextNoteId := nextNoteId b + 1\<rparr>)"
  by (auto simp: httpPostNote_def request_Inr Let_def split: option.splits)

lemma httpGetNote_Inr:
  "(httpGetNote t ref b = (Inr note, b')) =
     (accepted b \<and> (\<exists>n. ref = Some n \<and> noteStore b (t, n) = Some note) \<and> b' = served b)"
  by (auto simp: httpGetNote_def request_Inr split: option.splits)

lemmas rest_Inr = thenR_Inr returnR_Inr catchReply_Succeeded httpGetTestStep_Inr patchStep_Inr
  httpPostNote_Inr httpGetNote_Inr

lemma nth_upt_drop: "map (nth xs) [m..<length xs] = drop m xs"
proof (rule nth_equalityI)
  show "length (map (nth xs) [m..<length xs]) = length (drop m xs)" by simp
next
  fix i assume "i < length (map (nth xs) [m..<length xs])"
  then show "map (nth xs) [m..<length xs] ! i = drop m xs ! i" by (simp add: add.commute)
qed

lemma nth_upt_take: "m \<le> length xs \<Longrightarrow> map (nth xs) [0..<m] = take m xs"
  by (rule nth_equalityI) simp_all

lemma filter_upt_neq:
  assumes "j < n"
  shows "filter (\<lambda>k. int k \<noteq> int j) [0..<n] = [0..<j] @ [Suc j..<n]"
proof -
  have "[0..<n] = [0..<j] @ [j..<n]"
    using assms upt_add_eq_append [of 0 j "n - j"] by simp
  moreover have "[j..<n] = j # [Suc j..<n]" using assms by (rule upt_conv_Cons)
  ultimately have "[0..<n] = [0..<j] @ j # [Suc j..<n]" by simp
  then show ?thesis by simp
qed

lemma withoutIndex_in_range:
  assumes "0 \<le> i" "i < int (length xs)"
  shows "withoutIndex i xs = take (nat i) xs @ drop (Suc (nat i)) xs"
proof -
  have n: "nat i < length xs" using assms by simp
  have i: "i = int (nat i)" using assms by simp
  have "withoutIndex i xs = map (nth xs) (filter (\<lambda>k. int k \<noteq> int (nat i)) [0..<length xs])"
    unfolding withoutIndex_def filterWithIndex_nth using i by simp
  also have "\<dots> = map (nth xs) [0..<nat i] @ map (nth xs) [Suc (nat i)..<length xs]"
    by (simp only: filter_upt_neq [OF n] map_append)
  also have "\<dots> = take (nat i) xs @ drop (Suc (nat i)) xs"
    using n by (simp only: nth_upt_drop nth_upt_take [of "nat i" xs] less_imp_le)
  finally show ?thesis .
qed

lemma at_Some: "at xs i = Some v \<Longrightarrow> 0 \<le> i \<and> i < int (length xs) \<and> xs ! nat i = Some v"
  by (auto simp: at_def split: if_splits)

lemma unrefused_Nil [simp]: "unrefused n [] = True"
  by (cases n) simp_all

lemma unrefused_Suc:
  "unrefused (Suc n) script
     = ((case script of [] \<Rightarrow> True | refused # later \<Rightarrow> \<not> refused) \<and> unrefused n (tl script))"
  by (cases script) auto

lemma httpGetTestStep_ok:
  "accepted b \<Longrightarrow> testSteps b (t, s) = Some st \<Longrightarrow> httpGetTestStep t s b = (Inr st, served b)"
  by (simp add: httpGetTestStep_Inr)

lemma patchStep_ok:
  "accepted b \<Longrightarrow> testSteps b (t, s) = Some st \<Longrightarrow>
     patchStep t s change b
       = (Inr (change st), (served b)\<lparr>testSteps := (testSteps b)((t, s) \<mapsto> change st)\<rparr>)"
  by (simp add: patchStep_Inr)

lemma httpGetNote_ok:
  "accepted b \<Longrightarrow> noteStore b (t, n) = Some nt \<Longrightarrow> httpGetNote t (Some n) b = (Inr nt, served b)"
  by (simp add: httpGetNote_Inr)

lemma httpPostNote_ok:
  "accepted b \<Longrightarrow> \<exists>saved b1. httpPostNote t body b = (Inr saved, b1)
      \<and> testSteps b1 = testSteps b \<and> refusals b1 = tl (refusals b) \<and> nj_id saved = nextNoteId b"
  by (simp add: httpPostNote_Inr)

lemma unrefused_2: "unrefused 2 (refusals b) = (accepted b \<and> accepted (served b))"
  by (simp add: eval_nat_numeral unrefused_Suc accepted_def)

lemma unrefused_3:
  "unrefused 3 (refusals b) = (accepted b \<and> accepted (served b) \<and> accepted (served (served b)))"
  by (simp add: eval_nat_numeral unrefused_Suc accepted_def)

text \<open>Every request, refused or not.\<close>

lemma accepted_testSteps: "accepted (b\<lparr>testSteps := x\<rparr>) = accepted b"
  by (simp add: accepted_def)

lemma served_testSteps: "served (b\<lparr>testSteps := x\<rparr>) = (served b)\<lparr>testSteps := x\<rparr>"
  by (simp add: served_def)

lemma httpGetTestStep_run:
  "httpGetTestStep t s b =
     (if accepted b
      then (case testSteps b (t, s) of
              None \<Rightarrow> (Inl (StatusError 404), served b)
            | Some st \<Rightarrow> (Inr st, served b))
      else (Inl TransportError, served b))"
  by (simp add: httpGetTestStep_def request_accepted request_refused split: option.splits)

lemma patchStep_run:
  "patchStep t s change b =
     (if accepted b
      then (case testSteps b (t, s) of
              None \<Rightarrow> (Inl (StatusError 404), served b)
            | Some st \<Rightarrow> (Inr (change st), (served b)\<lparr>testSteps := (testSteps b)((t, s) \<mapsto> change st)\<rparr>))
      else (Inl TransportError, served b))"
  by (simp add: patchStep_def request_accepted request_refused split: option.splits)

lemma httpGetNote_run:
  "httpGetNote t ref b =
     (if accepted b
      then (case ref of
              None \<Rightarrow> (Inl (StatusError 404), served b)
            | Some n \<Rightarrow> (case noteStore b (t, n) of
                          None \<Rightarrow> (Inl (StatusError 404), served b)
                        | Some nt \<Rightarrow> (Inr nt, served b)))
      else (Inl TransportError, served b))"
  by (simp add: httpGetNote_def request_accepted request_refused split: option.splits)

lemma unrefused_4:
  "unrefused 4 (refusals b)
     = (accepted b \<and> accepted (served b) \<and> accepted (served (served b))
        \<and> accepted (served (served (served b))))"
  by (simp add: eval_nat_numeral unrefused_Suc accepted_def)

lemma unrefused_5:
  "unrefused 5 (refusals b)
     = (accepted b \<and> accepted (served b) \<and> accepted (served (served b))
        \<and> accepted (served (served (served b)))
        \<and> accepted (served (served (served (served b)))))"
  by (simp add: eval_nat_numeral unrefused_Suc accepted_def)


section \<open>Adding a bug or a notice appends its link\<close>

lemma addBug_links:
  assumes "addBug cfg t s summary details imageData b = (Succeeded (bug, index), b')"
  shows "\<exists>xs. bugsOf b t s = Some xs
           \<and> bugsOf b' t s = Some (xs @ [note_id bug])
           \<and> index = int (length xs)
           \<and> note_id bug = Some (nextNoteId b)
           \<and> note_sequence bug = s
           \<and> noticesOf b' t s = noticesOf b t s \<and> intentionOf b' t s = intentionOf b t s
           \<and> (\<forall>k. k \<noteq> (t, s) \<longrightarrow> testSteps b' k = testSteps b k)"
  using assms
  by (auto simp: addBug_def httpPatchTestStepBugs_def rest_Inr noteOf_def bugsOf_def noticesOf_def
        intentionOf_def)

lemma addNotice_links:
  assumes "addNotice cfg t s summary details tags imageData b = (Succeeded (notice, index), b')"
  shows "\<exists>xs. noticesOf b t s = Some xs
           \<and> noticesOf b' t s = Some (xs @ [note_id notice])
           \<and> index = int (length xs)
           \<and> note_id notice = Some (nextNoteId b)
           \<and> note_sequence notice = s
           \<and> bugsOf b' t s = bugsOf b t s \<and> intentionOf b' t s = intentionOf b t s
           \<and> (\<forall>k. k \<noteq> (t, s) \<longrightarrow> testSteps b' k = testSteps b k)"
  using assms
  by (auto simp: addNotice_def httpPatchTestStepNotices_def rest_Inr noteOf_def bugsOf_def
        noticesOf_def intentionOf_def)

lemma addBug_succeeds:
  assumes u: "unrefused 3 (refusals b)" and f: "testSteps b (t, s) = Some step"
  shows "\<exists>r b'. addBug cfg t s summary details imageData b = (Succeeded r, b')"
proof -
  have a: "accepted b" using u by (simp add: unrefused_3)
  obtain saved b1 where p: "httpPostNote t \<lparr> nb_type = ''bug'', nb_value = summary, nb_details = details,
        nb_tags = None, nb_imageData = imageData \<rparr> b = (Inr saved, b1)"
    and b1: "testSteps b1 = testSteps b" "refusals b1 = tl (refusals b)"
    using httpPostNote_ok [OF a] by blast
  have a1: "accepted b1" "accepted (served b1)"
    using u b1 by (simp_all add: eval_nat_numeral unrefused_Suc accepted_def)
  have g: "httpGetTestStep t s b1 = (Inr step, served b1)"
    using a1 f b1 by (simp add: httpGetTestStep_ok)
  have q: "httpPatchTestStepBugs t s (step_bugs step @ [Some (nj_id saved)]) (served b1)
            = (Inr (step\<lparr>step_bugs := step_bugs step @ [Some (nj_id saved)]\<rparr>),
               (served (served b1))\<lparr>testSteps := (testSteps (served b1))((t, s) \<mapsto>
                   step\<lparr>step_bugs := step_bugs step @ [Some (nj_id saved)]\<rparr>)\<rparr>)"
    unfolding httpPatchTestStepBugs_def using a1 f b1 by (subst patchStep_ok [of _ _ _ step]) simp_all
  show ?thesis
    unfolding addBug_def catchReply_def thenR_def returnR_def
    by (simp only: p g q prod.case sum.case) (intro exI, rule refl)
qed

lemma addNotice_succeeds:
  assumes u: "unrefused 3 (refusals b)" and f: "testSteps b (t, s) = Some step"
  shows "\<exists>r b'. addNotice cfg t s summary details tags imageData b = (Succeeded r, b')"
proof -
  have a: "accepted b" using u by (simp add: unrefused_3)
  obtain saved b1 where p: "httpPostNote t \<lparr> nb_type = ''notice'', nb_value = summary,
        nb_details = details, nb_tags = Some tags, nb_imageData = imageData \<rparr> b = (Inr saved, b1)"
    and b1: "testSteps b1 = testSteps b" "refusals b1 = tl (refusals b)"
    using httpPostNote_ok [OF a] by blast
  have a1: "accepted b1" "accepted (served b1)"
    using u b1 by (simp_all add: eval_nat_numeral unrefused_Suc accepted_def)
  have g: "httpGetTestStep t s b1 = (Inr step, served b1)"
    using a1 f b1 by (simp add: httpGetTestStep_ok)
  have q: "httpPatchTestStepNotices t s (step_notices step @ [Some (nj_id saved)]) (served b1)
            = (Inr (step\<lparr>step_notices := step_notices step @ [Some (nj_id saved)]\<rparr>),
               (served (served b1))\<lparr>testSteps := (testSteps (served b1))((t, s) \<mapsto>
                   step\<lparr>step_notices := step_notices step @ [Some (nj_id saved)]\<rparr>)\<rparr>)"
    unfolding httpPatchTestStepNotices_def using a1 f b1 by (subst patchStep_ok [of _ _ _ step]) simp_all
  show ?thesis
    unfolding addNotice_def catchReply_def thenR_def returnR_def
    by (simp only: p g q prod.case sum.case) (intro exI, rule refl)
qed

text \<open>
  Claim C8. When \<open>addBug\<close> (or \<open>addNotice\<close>) succeeds, the bug (notice) list of the target
  test step is its previous list followed by the identifier of the new note, the
  returned index is the length of the previous list, the returned note carries the new
  identifier and the target's sequence number, and no other link of the service changes.
  Both operations succeed whenever the step exists and none of their three requests is
  refused.
\<close>

theorem add_note_appends:
  "(addBug cfg t s summary details imageData b = (Succeeded (bug, index), b') \<longrightarrow>
      (\<exists>xs. bugsOf b t s = Some xs
           \<and> bugsOf b' t s = Some (xs @ [note_id bug])
           \<and> index = int (length xs)
           \<and> note_id bug = Some (nextNoteId b)
           \<and> note_sequence bug = s
           \<and> noticesOf b' t s = noticesOf b t s \<and> intentionOf b' t s = intentionOf b t s
           \<and> (\<forall>k. k \<noteq> (t, s) \<longrightarrow> testSteps b' k = testSteps b k)))
   \<and> (addNotice cfg t s summary details tags imageData b = (Succeeded (bug, index), b') \<longrightarrow>
      (\<exists>xs. noticesOf b t s = Some xs
           \<and> noticesOf b' t s = Some (xs @ [note_id bug])
           \<and> index = int (length xs)
           \<and> note_id bug = Some (nextNoteId b)
           \<and> note_sequence bug = s
           \<and> bugsOf b' t s = bugsOf b t s \<and> intentionOf b' t s = intentionOf b t s
           \<and> (\<forall>k. k \<noteq> (t, s) \<longrightarrow> testSteps b' k = testSteps b k)))
   \<and> (unrefused 3 (refusals b) \<and> testSteps b (t, s) \<noteq> None \<longrightarrow>
        (\<exists>r b''. addBug cfg t s summary details imageData b = (Succeeded r, b''))
        \<and> (\<exists>r b''. addNotice cfg t s summary details tags imageData b = (Succeeded r, b'')))"
  using addBug_links [of cfg t s summary details imageData b bug index b']
    addNotice_links [of cfg t s summary details tags imageData b bug index b']
    addBug_succeeds [of b t s _ cfg summary details imageData]
    addNotice_succeeds [of b t s _ cfg summary details tags imageData]
  by blast

text \<open>
  The theorem at the sample service: a third bug of step 1 gets index 2, a second notice
  index 1.
\<close>

theorem add_note_appends_witness:
  "fst (addBug sampleConfig ''r1'' 1 ''crash'' ''on save'' None (sampleBackend []))
     = Succeeded (\<lparr> note_id = Some 9, note_sequence = 1, note_value = ''crash'',
                    note_details = ''on save'', note_imageFilePath = [], note_tags = None \<rparr>, 2)
   \<and> bugsOf (snd (addBug sampleConfig ''r1'' 1 ''crash'' ''on save'' None (sampleBackend []))) ''r1'' 1
     = Some [Some 7, Some 8, Some 9]
   \<and> fst (addNotice sampleConfig ''r1'' 1 ''slow'' ''on load'' [''perf''] None (sampleBackend []))
     = Succeeded (\<lparr> note_id = Some 9, note_sequence = 1, note_value = ''slow'',
                    note_details = ''on load'', note_imageFilePath = [], note_tags = Some [''perf''] \<rparr>, 1)
   \<and> noticesOf (snd (addNotice sampleConfig ''r1'' 1 ''slow'' ''on load'' [''perf''] None (sampleBackend [])))
        ''r1'' 1
     = Some [Some 5, Some 9]"
proof -
  let ?b = "sampleBackend []"
  let ?bug = "\<lparr> note_id = Some 9, note_sequence = 1, note_value = ''crash'',
                    note_details = ''on save'', note_imageFilePath = [], note_tags = None \<rparr>"
  let ?notice = "\<lparr> note_id = Some 9, note_sequence = 1, note_value = ''slow'',
                    note_details = ''on load'', note_imageFilePath = [], note_tags = Some [''perf''] \<rparr>"
  have pre: "bugsOf ?b ''r1'' 1 = Some [Some 7, Some 8]" "noticesOf ?b ''r1'' 1 = Some [Some 5]"
    by (simp_all add: bugsOf_def noticesOf_def sampleBackend_def)
  have fb: "fst (addBug sampleConfig ''r1'' 1 ''crash'' ''on save'' None ?b) = Succeeded (?bug, 2)"
    by code_simp
  have fn: "fst (addNotice sampleConfig ''r1'' 1 ''slow'' ''on load'' [''perf''] None ?b)
              = Succeeded (?notice, 1)"
    by code_simp
  have hb: "addBug sampleConfig ''r1'' 1 ''crash'' ''on save'' None ?b
              = (Succeeded (?bug, 2), snd (addBug sampleConfig ''r1'' 1 ''crash'' ''on save'' None ?b))"
    using fb by (simp add: prod_eq_iff)
  have hn: "addNotice sampleConfig ''r1'' 1 ''slow'' ''on load'' [''perf''] None ?b
              = (Succeeded (?notice, 1),
                 snd (addNotice sampleConfig ''r1'' 1 ''slow'' ''on load'' [''perf''] None ?b))"
    using fn by (simp add: prod_eq_iff)
  have b: "bugsOf (snd (addBug sampleConfig ''r1'' 1 ''crash'' ''on save'' None ?b)) ''r1'' 1
             = Some [Some 7, Some 8, Some 9]"
    using conjunct1 [OF add_note_appends [of sampleConfig "''r1''" 1 "''crash''" "''on save''" None ?b
            ?bug 2 "snd (addBug sampleConfig ''r1'' 1 ''crash'' ''on save'' None ?b)"], rule_format, OF hb]
      pre by auto
  have n: "noticesOf (snd (addNotice sampleConfig ''r1'' 1 ''slow'' ''on load'' [''perf''] None ?b)) ''r1'' 1
             = Some [Some 5, Some 9]"
    using conjunct1 [OF conjunct2 [OF add_note_appends [of sampleConfig "''r1''" 1 "''slow''" "''on load''"
            None ?b ?notice 1
            "snd (addNotice sampleConfig ''r1'' 1 ''slow'' ''on load'' [''perf''] None ?b)" "[''perf'']"]],
          rule_format, OF hn]
      pre by auto
  show ?thesis using fb fn b n by blast
qed


section \<open>Moving a note between test steps\<close>

lemma moveBug_effect:
  assumes "moveBug cfg t (fs, fi) ds b = (Succeeded (n, idx), b')"
  shows "\<exists>fromStep nid destStep.
           testSteps b (t, fs) = Some fromStep
           \<and> 0 \<le> fi \<and> fi < int (length (step_bugs fromStep))
           \<and> step_bugs fromStep ! nat fi = Some nid
           \<and> ((testSteps b)((t, fs) \<mapsto> fromStep\<lparr>step_bugs :=
                   take (nat fi) (step_bugs fromStep) @ drop (Suc (nat fi)) (step_bugs fromStep)\<rparr>))
                 (t, ds) = Some destStep
           \<and> testSteps b' =
               (testSteps b)
                 ((t, fs) \<mapsto> fromStep\<lparr>step_bugs :=
                   take (nat fi) (step_bugs fromStep) @ drop (Suc (nat fi)) (step_bugs fromStep)\<rparr>,
                  (t, ds) \<mapsto> destStep\<lparr>step_bugs := step_bugs destStep @ [Some nid]\<rparr>)
           \<and> idx = int (length (step_bugs destStep))"
proof -
  from assms obtain fromStep destStep nt b1 b2 b3 b4 where
    g1: "testSteps b (t, fs) = Some fromStep" and
    b2: "b2 = (served b1)\<lparr>testSteps := (testSteps b1)((t, fs) \<mapsto>
               fromStep\<lparr>step_bugs := withoutIndex fi (step_bugs fromStep)\<rparr>)\<rparr>" and b1: "b1 = served b" and
    g3: "testSteps b2 (t, ds) = Some destStep" and b3: "b3 = served b2" and
    b4: "b4 = (served b3)\<lparr>testSteps := (testSteps b3)((t, ds) \<mapsto>
               destStep\<lparr>step_bugs := step_bugs destStep @ [at (step_bugs fromStep) fi]\<rparr>)\<rparr>" and
    g5: "httpGetNote t (at (step_bugs fromStep) fi) b4 = (Inr nt, b')" and
    idx: "idx = int (length (step_bugs destStep))"
    by (auto simp: moveBug_def httpPatchTestStepBugs_def rest_Inr)
  from g5 obtain nid where nid: "at (step_bugs fromStep) fi = Some nid" and b': "b' = served b4"
    by (auto simp: httpGetNote_Inr)
  note r = at_Some [OF nid]
  have w: "withoutIndex fi (step_bugs fromStep)
            = take (nat fi) (step_bugs fromStep) @ drop (Suc (nat fi)) (step_bugs fromStep)"
    using r by (simp add: withoutIndex_in_range)
  show ?thesis
    using g1 r g3 idx by (simp add: b' b4 b3 b2 b1 nid w)
qed

lemma moveNotice_effect:
  assumes "moveNotice cfg t (fs, fi) ds b = (Succeeded (n, idx), b')"
  shows "\<exists>fromStep nid destStep.
           testSteps b (t, fs) = Some fromStep
           \<and> 0 \<le> fi \<and> fi < int (length (step_notices fromStep))
           \<and> step_notices fromStep ! nat fi = Some nid
           \<and> ((testSteps b)((t, fs) \<mapsto> fromStep\<lparr>step_notices :=
                   take (nat fi) (step_notices fromStep) @ drop (Suc (nat fi)) (step_notices fromStep)\<rparr>))
                 (t, ds) = Some destStep
           \<and> testSteps b' =
               (testSteps b)
                 ((t, fs) \<mapsto> fromStep\<lparr>step_notices :=
                   take (nat fi) (step_notices fromStep) @ drop (Suc (nat fi)) (step_notices fromStep)\<rparr>,
                  (t, ds) \<mapsto> destStep\<lparr>step_notices := step_notices destStep @ [Some nid]\<rparr>)
           \<and> idx = int (length (step_notices destStep))"
proof -
  from assms obtain fromStep destStep nt b1 b2 b3 b4 where
    g1: "testSteps b (t, fs) = Some fromStep" and
    b2: "b2 = (served b1)\<lparr>testSteps := (testSteps b1)((t, fs) \<mapsto>
               fromStep\<lparr>step_notices := withoutIndex fi (step_notices fromStep)\<rparr>)\<rparr>" and b1: "b1 = served b" and
    g3: "testSteps b2 (t, ds) = Some destStep" and b3: "b3 = served b2" and
    b4: "b4 = (served b3)\<lparr>testSteps := (testSteps b3)((t, ds) \<mapsto>
               destStep\<lparr>step_notices := step_notices destStep @ [at (step_notices fromStep) fi]\<rparr>)\<rparr>" and
    g5: "httpGetNote t (at (step_notices fromStep) fi) b4 = (Inr nt, b')" and
    idx: "idx = int (length (step_notices destStep))"
    by (auto simp: moveNotice_def httpPatchTestStepNotices_def rest_Inr)
  from g5 obtain nid where nid: "at (step_notices fromStep) fi = Some nid" and b': "b' = served b4"
    by (auto simp: httpGetNote_Inr)
  note r = at_Some [OF nid]
  have w: "withoutIndex fi (step_notices fromStep)
            = take (nat fi) (step_notices fromStep) @ drop (Suc (nat fi)) (step_notices fromStep)"
    using r by (simp add: withoutIndex_in_range)
  show ?thesis
    using g1 r g3 idx by (simp add: b' b4 b3 b2 b1 nid w)
qed

lemma moveIntention_effect:
  assumes "moveIntention cfg t fs ds b = (Succeeded n, b')"
  shows "\<exists>fromStep nid destStep.
           testSteps b (t, fs) = Some fromStep
           \<and> step_intention fromStep = Some nid
           \<and> ((testSteps b)((t, fs) \<mapsto> fromStep\<lparr>step_intention := None\<rparr>)) (t, ds) = Some destStep
           \<and> testSteps b' =
               (testSteps b)
                 ((t, fs) \<mapsto> fromStep\<lparr>step_intention := None\<rparr>,
                  (t, ds) \<mapsto> destStep\<lparr>step_intention := Some nid\<rparr>)"
proof -
  from assms obtain fromStep destStep nt b1 b2 b3 where
    g1: "testSteps b (t, fs) = Some fromStep" and b1: "b1 = served b" and
    b2: "b2 = (served b1)\<lparr>testSteps := (testSteps b1)((t, fs) \<mapsto>
               fromStep\<lparr>step_intention := None\<rparr>)\<rparr>" and
    g3: "testSteps b2 (t, ds) = Some destStep" and
    b3: "b3 = (served b2)\<lparr>testSteps := (testSteps b2)((t, ds) \<mapsto>
               destStep\<lparr>step_intention := step_intention fromStep\<rparr>)\<rparr>" and
    g5: "httpGetNote t (step_intention fromStep) b3 = (Inr nt, b')"
    by (auto simp: moveIntention_def httpPatchTestStepIntention_def rest_Inr)
  from g5 obtain nid where nid: "step_intention fromStep = Some nid" and b': "b' = served b3"
    by (auto simp: httpGetNote_Inr)
  show ?thesis
    using g1 g3 by (simp add: b' b3 b2 b1 nid)
qed

lemma moveBug_links:
  assumes "moveBug cfg t (fs, fi) ds b = (Succeeded (n, idx), b')"
  shows "\<exists>xs nid. bugsOf b t fs = Some xs \<and> 0 \<le> fi \<and> fi < int (length xs) \<and> xs ! nat fi = Some nid
        \<and> (if fs = ds
            then bugsOf b' t ds = Some (take (nat fi) xs @ drop (Suc (nat fi)) xs @ [Some nid])
                 \<and> idx = int (length xs) - 1
            else bugsOf b' t fs = Some (take (nat fi) xs @ drop (Suc (nat fi)) xs)
                 \<and> (\<exists>ys. bugsOf b t ds = Some ys \<and> bugsOf b' t ds = Some (ys @ [Some nid])
                        \<and> idx = int (length ys)))
        \<and> (\<forall>k. k \<noteq> (t, fs) \<and> k \<noteq> (t, ds) \<longrightarrow> testSteps b' k = testSteps b k)
        \<and> (\<forall>s. noticesOf b' t s = noticesOf b t s \<and> intentionOf b' t s = intentionOf b t s)"
proof -
  from moveBug_effect [OF assms] obtain fromStep nid destStep where
    f: "testSteps b (t, fs) = Some fromStep" and
    r: "0 \<le> fi" "fi < int (length (step_bugs fromStep))" "step_bugs fromStep ! nat fi = Some nid" and
    d: "((testSteps b)((t, fs) \<mapsto> fromStep\<lparr>step_bugs :=
                   take (nat fi) (step_bugs fromStep) @ drop (Suc (nat fi)) (step_bugs fromStep)\<rparr>))
                 (t, ds) = Some destStep" and
    s: "testSteps b' =
               (testSteps b)
                 ((t, fs) \<mapsto> fromStep\<lparr>step_bugs :=
                   take (nat fi) (step_bugs fromStep) @ drop (Suc (nat fi)) (step_bugs fromStep)\<rparr>,
                  (t, ds) \<mapsto> destStep\<lparr>step_bugs := step_bugs destStep @ [Some nid]\<rparr>)" and
    i: "idx = int (length (step_bugs destStep))"
    by blast
  have len: "int (length (take (nat fi) (step_bugs fromStep) @ drop (Suc (nat fi)) (step_bugs fromStep)))
               = int (length (step_bugs fromStep)) - 1"
    using r by auto
  show ?thesis
  proof (cases "fs = ds")
    case True
    then have "destStep = fromStep\<lparr>step_bugs :=
                   take (nat fi) (step_bugs fromStep) @ drop (Suc (nat fi)) (step_bugs fromStep)\<rparr>"
      using d by simp
    then show ?thesis
      using True f r i len
      by (auto simp: s bugsOf_def noticesOf_def intentionOf_def)
  next
    case False
    then have "testSteps b (t, ds) = Some destStep" using d by simp
    then show ?thesis
      using False f r i
      by (auto simp: s bugsOf_def noticesOf_def intentionOf_def)
  qed
qed

lemma moveNotice_links:
  assumes "moveNotice cfg t (fs, fi) ds b = (Succeeded (n, idx), b')"
  shows "\<exists>xs nid. noticesOf b t fs = Some xs \<and> 0 \<le> fi \<and> fi < int (length xs) \<and> xs ! nat fi = Some nid
        \<and> (if fs = ds
            then noticesOf b' t ds = Some (take (nat fi) xs @ drop (Suc (nat fi)) xs @ [Some nid])
                 \<and> idx = int (length xs) - 1
            else noticesOf b' t fs = Some (take (nat fi) xs @ drop (Suc (nat fi)) xs)
                 \<and> (\<exists>ys. noticesOf b t ds = Some ys \<and> noticesOf b' t ds = Some (ys @ [Some nid])
                        \<and> idx = int (length ys)))
        \<and> (\<forall>k. k \<noteq> (t, fs) \<and> k \<noteq> (t, ds) \<longrightarrow> testSteps b' k = testSteps b k)
        \<and> (\<forall>s. bugsOf b' t s = bugsOf b t s \<and> intentionOf b' t s = intentionOf b t s)"
proof -
  from moveNotice_effect [OF assms] obtain fromStep nid destStep where
    f: "testSteps b (t, fs) = Some fromStep" and
    r: "0 \<le> fi" "fi < int (length (step_notices fromStep))" "step_notices fromStep ! nat fi = Some nid" and
    d: "((testSteps b)((t, fs) \<mapsto> fromStep\<lparr>step_notices :=
                   take (nat fi) (step_notices fromStep) @ drop (Suc (nat fi)) (step_notices fromStep)\<rparr>))
                 (t, ds) = Some destStep" and
    s: "testSteps b' =
               (testSteps b)
                 ((t, fs) \<mapsto> fromStep\<lparr>step_notices :=
                   take (nat fi) (step_notices fromStep) @ drop (Suc (nat fi)) (step_notices fromStep)\<rparr>,
                  (t, ds) \<mapsto> destStep\<lparr>step_notices := step_notices destStep @ [Some nid]\<rparr>)" and
    i: "idx = int (length (step_notices destStep))"
    by blast
  have len: "int (length (take (nat fi) (step_notices fromStep) @ drop (Suc (nat fi)) (step_notices fromStep)))
               = int (length (step_notices fromStep)) - 1"
    using r by auto
  show ?thesis
  proof (cases "fs = ds")
    case True
    then have "destStep = fromStep\<lparr>step_notices :=
                   take (nat fi) (step_notices fromStep) @ drop (Suc (nat fi)) (step_notices fromStep)\<rparr>"
      using d by simp
    then show ?thesis
      using True f r i len
      by (auto simp: s bugsOf_def noticesOf_def intentionOf_def)
  next
    case False
    then have "testSteps b (t, ds) = Some destStep" using d by simp
    then show ?thesis
      using False f r i
      by (auto simp: s bugsOf_def noticesOf_def intentionOf_def)
  qed
qed

lemma moveIntention_links:
  assumes "moveIntention cfg t fs ds b = (Succeeded n, b')"
  shows "\<exists>nid. intentionOf b t fs = Some (Some nid)
        \<and> intentionOf b' t ds = Some (Some nid)
        \<and> (if fs = ds then True else intentionOf b' t fs = Some None \<and> intentionOf b t ds \<noteq> None)
        \<and> (\<forall>k. k \<noteq> (t, fs) \<and> k \<noteq> (t, ds) \<longrightarrow> testSteps b' k = testSteps b k)
        \<and> (\<forall>s. bugsOf b' t s = bugsOf b t s \<and> noticesOf b' t s = noticesOf b t s)
        \<and> (\<forall>s old. old \<noteq> nid \<longrightarrow>
              (intentionOf b' t s = Some (Some old))
                = (intentionOf b t s = Some (Some old) \<and> s \<noteq> ds))"
proof -
  from moveIntention_effect [OF assms] obtain fromStep nid destStep where
    f: "testSteps b (t, fs) = Some fromStep" and
    r: "step_intention fromStep = Some nid" and
    d: "((testSteps b)((t, fs) \<mapsto> fromStep\<lparr>step_intention := None\<rparr>)) (t, ds) = Some destStep" and
    s: "testSteps b' =
               (testSteps b)
                 ((t, fs) \<mapsto> fromStep\<lparr>step_intention := None\<rparr>,
                  (t, ds) \<mapsto> destStep\<lparr>step_intention := Some nid\<rparr>)"
    by blast
  show ?thesis
  proof (cases "fs = ds")
    case True
    then have "destStep = fromStep\<lparr>step_intention := None\<rparr>" using d by simp
    then show ?thesis
      using True f r by (auto simp: s bugsOf_def noticesOf_def intentionOf_def)
  next
    case False
    then have "testSteps b (t, ds) = Some destStep" using d by simp
    then show ?thesis
      using False f r by (auto simp: s bugsOf_def noticesOf_def intentionOf_def)
  qed
qed

text \<open>
  A valid move, whatever the transport does: the reply and the links afterwards are
  determined by the first request that is refused.
\<close>

lemma moveBug_outcome:
  assumes f: "testSteps b (t, fs) = Some fromStep"
    and d: "testSteps b (t, ds) = Some destStep"
    and i: "at (step_bugs fromStep) fi = Some nid"
    and n: "noteStore b (t, nid) = Some nt"
  shows "fst (moveBug cfg t (fs, fi) ds b)
           = (if unrefused 5 (refusals b)
              then Succeeded (noteOf cfg None ds nt,
                     int (length (if fs = ds then withoutIndex fi (step_bugs fromStep)
                                  else step_bugs destStep)))
              else Failed ''repository_service_not_found'' ''Repository service is not found.'')
         \<and> testSteps (snd (moveBug cfg t (fs, fi) ds b))
           = (if \<not> unrefused 2 (refusals b) then testSteps b
              else if \<not> unrefused 4 (refusals b)
              then (testSteps b)((t, fs) \<mapsto> fromStep\<lparr>step_bugs := withoutIndex fi (step_bugs fromStep)\<rparr>)
              else (testSteps b)
                     ((t, fs) \<mapsto> fromStep\<lparr>step_bugs := withoutIndex fi (step_bugs fromStep)\<rparr>,
                      (t, ds) \<mapsto> destStep\<lparr>step_bugs :=
                         (if fs = ds then withoutIndex fi (step_bugs fromStep) else step_bugs destStep)
                         @ [Some nid]\<rparr>))
         \<and> noteStore (snd (moveBug cfg t (fs, fi) ds b)) = noteStore b"
  unfolding moveBug_def catchReply_def thenR_def returnR_def httpPatchTestStepBugs_def
    httpGetTestStep_run patchStep_run httpGetNote_run unrefused_2 unrefused_4 unrefused_5
  using f d i n
  by (cases "fs = ds") (auto simp: fun_upd_twist accepted_testSteps served_testSteps)


lemma moveNotice_outcome:
  assumes f: "testSteps b (t, fs) = Some fromStep"
    and d: "testSteps b (t, ds) = Some destStep"
    and i: "at (step_notices fromStep) fi = Some nid"
    and n: "noteStore b (t, nid) = Some nt"
  shows "fst (moveNotice cfg t (fs, fi) ds b)
           = (if unrefused 5 (refusals b)
              then Succeeded (noteOf cfg None ds nt,
                     int (length (if fs = ds then withoutIndex fi (step_notices fromStep)
                                  else step_notices destStep)))
              else Failed ''repository_service_not_found'' ''Repository service is not found.'')
         \<and> testSteps (snd (moveNotice cfg t (fs, fi) ds b))
           = (if \<not> unrefused 2 (refusals b) then testSteps b
              else if \<not> unrefused 4 (refusals b)
              then (testSteps b)((t, fs) \<mapsto> fromStep\<lparr>step_notices := withoutIndex fi (step_notices fromStep)\<rparr>)
              else (testSteps b)
                     ((t, fs) \<mapsto> fromStep\<lparr>step_notices := withoutIndex fi (step_notices fromStep)\<rparr>,
                      (t, ds) \<mapsto> destStep\<lparr>step_notices :=
                         (if fs = ds then withoutIndex fi (step_notices fromStep) else step_notices destStep)
                         @ [Some nid]\<rparr>))
         \<and> noteStore (snd (moveNotice cfg t (fs, fi) ds b)) = noteStore b"
  unfolding moveNotice_def catchReply_def thenR_def returnR_def httpPatchTestStepNotices_def
    httpGetTestStep_run patchStep_run httpGetNote_run unrefused_2 unrefused_4 unrefused_5
  using f d i n
  by (cases "fs = ds") (auto simp: fun_upd_twist accepted_testSteps served_testSteps)

lemma moveIntention_outcome:
  assumes f: "testSteps b (t, fs) = Some fromStep"
    and d: "testSteps b (t, ds) = Some destStep"
    and i: "step_intention fromStep = Some nid"
    and n: "noteStore b (t, nid) = Some nt"
  shows "fst (moveIntention cfg t fs ds b)
           = (if unrefused 4 (refusals b) then Succeeded (noteOf cfg None ds nt)
              else Failed ''repository_service_not_found'' ''Repository service is not found.'')
         \<and> testSteps (snd (moveIntention cfg t fs ds b))
           = (if \<not> unrefused 2 (refusals b) then testSteps b
              else if \<not> unrefused 3 (refusals b)
              then (testSteps b)((t, fs) \<mapsto> fromStep\<lparr>step_intention := None\<rparr>)
              else (testSteps b)
                     ((t, fs) \<mapsto> fromStep\<lparr>step_intention := None\<rparr>,
                      (t, ds) \<mapsto> destStep\<lparr>step_intention := Some nid\<rparr>))
         \<and> noteStore (snd (moveIntention cfg t fs ds b)) = noteStore b"
  unfolding moveIntention_def catchReply_def thenR_def returnR_def httpPatchTestStepIntention_def
    httpGetTestStep_run patchStep_run httpGetNote_run unrefused_2 unrefused_3 unrefused_4
  using f d i n
  by (cases "fs = ds") (auto simp: fun_upd_twist accepted_testSteps served_testSteps)


text \<open>
  Claim C1, as amended. When \<open>moveBug\<close> succeeds, the source index designates an
  identifier of the source step's bug list. For different source and destination steps
  the source list afterwards is the previous list without that position, the
  destination list is its previous list followed by the identifier, and the returned
  index is the previous length of the destination list; for equal steps the list is
  the previous list without that position, followed by the identifier. No other step and
  no other link changes. The same holds for \<open>moveNotice\<close> and the notice lists. When
  \<open>moveIntention\<close> succeeds, the destination's intention is the source's previous
  intention, the source's intention is empty if the steps differ, and no other step
  changes; the intention that the destination held before is replaced, so any other note
  is an intention afterwards of exactly the steps other than the destination whose
  intention it was.

  A move is not atomic. For a valid move (both steps exist and the designated identifier
  is that of a stored note) the reply and the links afterwards are determined by the
  first refused request. \<open>moveBug\<close> and \<open>moveNotice\<close> send five requests: if one of the
  first two is refused, no link has changed; if the third or fourth is, the note is
  removed from the source list and added nowhere; if the fifth is, the note has been
  moved; in all these cases the reply is a failure, and it is a success exactly when none
  of the five is refused. \<open>moveIntention\<close> sends four: no change after a refusal of one
  of the first two, the source's intention emptied and no step holding the note after a
  refusal of the third, the note moved after a refusal of the fourth, and success exactly
  when none of the four is refused. No move changes the stored notes.
\<close>

theorem move_note_relinks:
  "(moveBug cfg t (fs, fi) ds b = (Succeeded (n, idx), b') \<longrightarrow>
      (\<exists>xs nid. bugsOf b t fs = Some xs \<and> 0 \<le> fi \<and> fi < int (length xs) \<and> xs ! nat fi = Some nid
        \<and> (if fs = ds
            then bugsOf b' t ds = Some (take (nat fi) xs @ drop (Suc (nat fi)) xs @ [Some nid])
                 \<and> idx = int (length xs) - 1
            else bugsOf b' t fs = Some (take (nat fi) xs @ drop (Suc (nat fi)) xs)
                 \<and> (\<exists>ys. bugsOf b t ds = Some ys \<and> bugsOf b' t ds = Some (ys @ [Some nid])
                        \<and> idx = int (length ys)))
        \<and> (\<forall>k. k \<noteq> (t, fs) \<and> k \<noteq> (t, ds) \<longrightarrow> testSteps b' k = testSteps b k)
        \<and> (\<forall>s. noticesOf b' t s = noticesOf b t s \<and> intentionOf b' t s = intentionOf b t s)))
   \<and> (moveNotice cfg t (fs, fi) ds b = (Succeeded (n, idx), b') \<longrightarrow>
      (\<exists>xs nid. noticesOf b t fs = Some xs \<and> 0 \<le> fi \<and> fi < int (length xs) \<and> xs ! nat fi = Some nid
        \<and> (if fs = ds
            then noticesOf b' t ds = Some (take (nat fi) xs @ drop (Suc (nat fi)) xs @ [Some nid])
                 \<and> idx = int (length xs) - 1
            else noticesOf b' t fs = Some (take (nat fi) xs @ drop (Suc (nat fi)) xs)
                 \<and> (\<exists>ys. noticesOf b t ds = Some ys \<and> noticesOf b' t ds = Some (ys @ [Some nid])
                        \<and> idx = int (length ys)))
        \<and> (\<forall>k. k \<noteq> (t, fs) \<and> k \<noteq> (t, ds) \<longrightarrow> testSteps b' k = testSteps b k)
        \<and> (\<forall>s. bugsOf b' t s = bugsOf b t s \<and> intentionOf b' t s = intentionOf b t s)))
   \<and> (moveIntention cfg t fs ds b = (Succeeded m, b') \<longrightarrow>
      (\<exists>nid. intentionOf b t fs = Some (Some nid)
        \<and> intentionOf b' t ds = Some (Some nid)
        \<and> (if fs = ds then True else intentionOf b' t fs = Some None \<and> intentionOf b t ds \<noteq> None)
        \<and> (\<forall>k. k \<noteq> (t, fs) \<and> k \<noteq> (t, ds) \<longrightarrow> testSteps b' k = testSteps b k)
        \<and> (\<forall>s. bugsOf b' t s = bugsOf b t s \<and> noticesOf b' t s = noticesOf b t s)
        \<and> (\<forall>s old. old \<noteq> nid \<longrightarrow>
              (intentionOf b' t s = Some (Some old))
                = (intentionOf b t s = Some (Some old) \<and> s \<noteq> ds))))
   \<and> (testSteps b (t, fs) = Some fromStep \<and> testSteps b (t, ds) = Some destStep
        \<and> at (step_bugs fromStep) fi = Some nid \<and> noteStore b (t, nid) = Some nt \<longrightarrow>
        fst (moveBug cfg t (fs, fi) ds b)
           = (if unrefused 5 (refusals b)
              then Succeeded (noteOf cfg None ds nt,
                     int (length (if fs = ds then withoutIndex fi (step_bugs fromStep)
                                  else step_bugs destStep)))
              else Failed ''repository_service_not_found'' ''Repository service is not found.'')
        \<and> testSteps (snd (moveBug cfg t (fs, fi) ds b))
           = (if \<not> unrefused 2 (refusals b) then testSteps b
              else if \<not> unrefused 4 (refusals b)
              then (testSteps b)((t, fs) \<mapsto> fromStep\<lparr>step_bugs := withoutIndex fi (step_bugs fromStep)\<rparr>)
              else (testSteps b)
                     ((t, fs) \<mapsto> fromStep\<lparr>step_bugs := withoutIndex fi (step_bugs fromStep)\<rparr>,
                      (t, ds) \<mapsto> destStep\<lparr>step_bugs :=
                         (if fs = ds then withoutIndex fi (step_bugs fromStep) else step_bugs destStep)
                         @ [Some nid]\<rparr>))
        \<and> noteStore (snd (moveBug cfg t (fs, fi) ds b)) = noteStore b)
   \<and> (testSteps b (t, fs) = Some fromStep \<and> testSteps b (t, ds) = Some destStep
        \<and> at (step_notices fromStep) fi = Some nid \<and> noteStore b (t, nid) = Some nt \<longrightarrow>
        fst (moveNotice cfg t (fs, fi) ds b)
           = (if unrefused 5 (refusals b)
              then Succeeded (noteOf cfg None ds nt,
                     int (length (if fs = ds then withoutIndex fi (step_notices fromStep)
                                  else step_notices destStep)))
              else Failed ''repository_service_not_found'' ''Repository service is not found.'')
        \<and> testSteps (snd (moveNotice cfg t (fs, fi) ds b))
           = (if \<not> unrefused 2 (refusals b) then testSteps b
              else if \<not> unrefused 4 (refusals b)
              then (testSteps b)((t, fs) \<mapsto> fromStep\<lparr>step_notices := withoutIndex fi (step_notices fromStep)\<rparr>)
              else (testSteps b)
                     ((t, fs) \<mapsto> fromStep\<lparr>step_notices := withoutIndex fi (step_notices fromStep)\<rparr>,
                      (t, ds) \<mapsto> destStep\<lparr>step_notices :=
                         (if fs = ds then withoutIndex fi (step_notices fromStep) else step_notices destStep)
                         @ [Some nid]\<rparr>))
        \<and> noteStore (snd (moveNotice cfg t (fs, fi) ds b)) = noteStore b)
   \<and> (testSteps b (t, fs) = Some fromStep \<and> testSteps b (t, ds) = Some destStep
        \<and> step_intention fromStep = Some nid \<and> noteStore b (t, nid) = Some nt \<longrightarrow>
        fst (moveIntention cfg t fs ds b)
           = (if unrefused 4 (refusals b) then Succeeded (noteOf cfg None ds nt)
              else Failed ''repository_service_not_found'' ''Repository service is not found.'')
        \<and> testSteps (snd (moveIntention cfg t fs ds b))
           = (if \<not> unrefused 2 (refusals b) then testSteps b
              else if \<not> unrefused 3 (refusals b)
              then (testSteps b)((t, fs) \<mapsto> fromStep\<lparr>step_intention := None\<rparr>)
              else (testSteps b)
                     ((t, fs) \<mapsto> fromStep\<lparr>step_intention := None\<rparr>,
                      (t, ds) \<mapsto> destStep\<lparr>step_intention := Some nid\<rparr>))
        \<and> noteStore (snd (moveIntention cfg t fs ds b)) = noteStore b)"
proof (intro conjI impI)
  assume "moveBug cfg t (fs, fi) ds b = (Succeeded (n, idx), b')"
  then show "\<exists>xs nid. bugsOf b t fs = Some xs \<and> 0 \<le> fi \<and> fi < int (length xs) \<and> xs ! nat fi = Some nid
        \<and> (if fs = ds
            then bugsOf b' t ds = Some (take (nat fi) xs @ drop (Suc (nat fi)) xs @ [Some nid])
                 \<and> idx = int (length xs) - 1
            else bugsOf b' t fs = Some (take (nat fi) xs @ drop (Suc (nat fi)) xs)
                 \<and> (\<exists>ys. bugsOf b t ds = Some ys \<and> bugsOf b' t ds = Some (ys @ [Some nid])
                        \<and> idx = int (length ys)))
        \<and> (\<forall>k. k \<noteq> (t, fs) \<and> k \<noteq> (t, ds) \<longrightarrow> testSteps b' k = testSteps b k)
        \<and> (\<forall>s. noticesOf b' t s = noticesOf b t s \<and> intentionOf b' t s = intentionOf b t s)"
    by (rule moveBug_links)
next
  assume "moveNotice cfg t (fs, fi) ds b = (Succeeded (n, idx), b')"
  then show "\<exists>xs nid. noticesOf b t fs = Some xs \<and> 0 \<le> fi \<and> fi < int (length xs) \<and> xs ! nat fi = Some nid
        \<and> (if fs = ds
            then noticesOf b' t ds = Some (take (nat fi) xs @ drop (Suc (nat fi)) xs @ [Some nid])
                 \<and> idx = int (length xs) - 1
            else noticesOf b' t fs = Some (take (nat fi) xs @ drop (Suc (nat fi)) xs)
                 \<and> (\<exists>ys. noticesOf b t ds = Some ys \<and> noticesOf b' t ds = Some (ys @ [Some nid])
                        \<and> idx = int (length ys)))
        \<and> (\<forall>k. k \<noteq> (t, fs) \<and> k \<noteq> (t, ds) \<longrightarrow> testSteps b' k = testSteps b k)
        \<and> (\<forall>s. bugsOf b' t s = bugsOf b t s \<and> intentionOf b' t s = intentionOf b t s)"
    by (rule moveNotice_links)
next
  assume "moveIntention cfg t fs ds b = (Succeeded m, b')"
  then show "\<exists>nid. intentionOf b t fs = Some (Some nid)
        \<and> intentionOf b' t ds = Some (Some nid)
        \<and> (if fs = ds then True else intentionOf b' t fs = Some None \<and> intentionOf b t ds \<noteq> None)
        \<and> (\<forall>k. k \<noteq> (t, fs) \<and> k \<noteq> (t, ds) \<longrightarrow> testSteps b' k = testSteps b k)
        \<and> (\<forall>s. bugsOf b' t s = bugsOf b t s \<and> noticesOf b' t s = noticesOf b t s)
        \<and> (\<forall>s old. old \<noteq> nid \<longrightarrow>
              (intentionOf b' t s = Some (Some old))
                = (intentionOf b t s = Some (Some old) \<and> s \<noteq> ds))"
    by (rule moveIntention_links)
next
  assume h: "testSteps b (t, fs) = Some fromStep \<and> testSteps b (t, ds) = Some destStep
        \<and> at (step_bugs fromStep) fi = Some nid \<and> noteStore b (t, nid) = Some nt"
  note o = moveBug_outcome [of b t fs fromStep ds destStep fi nid nt cfg]
  show "fst (moveBug cfg t (fs, fi) ds b)
           = (if unrefused 5 (refusals b)
              then Succeeded (noteOf cfg None ds nt,
                     int (length (if fs = ds then withoutIndex fi (step_bugs fromStep)
                                  else step_bugs destStep)))
              else Failed ''repository_service_not_found'' ''Repository service is not found.'')"
    using o h by blast
  show "testSteps (snd (moveBug cfg t (fs, fi) ds b))
           = (if \<not> unrefused 2 (refusals b) then testSteps b
              else if \<not> unrefused 4 (refusals b)
              then (testSteps b)((t, fs) \<mapsto> fromStep\<lparr>step_bugs := withoutIndex fi (step_bugs fromStep)\<rparr>)
              else (testSteps b)
                     ((t, fs) \<mapsto> fromStep\<lparr>step_bugs := withoutIndex fi (step_bugs fromStep)\<rparr>,
                      (t, ds) \<mapsto> destStep\<lparr>step_bugs :=
                         (if fs = ds then withoutIndex fi (step_bugs fromStep) else step_bugs destStep)
                         @ [Some nid]\<rparr>))"
    using o h by blast
  show "noteStore (snd (moveBug cfg t (fs, fi) ds b)) = noteStore b"
    using o h by blast
next
  assume h: "testSteps b (t, fs) = Some fromStep \<and> testSteps b (t, ds) = Some destStep
        \<and> at (step_notices fromStep) fi = Some nid \<and> noteStore b (t, nid) = Some nt"
  note o = moveNotice_outcome [of b t fs fromStep ds destStep fi nid nt cfg]
  show "fst (moveNotice cfg t (fs, fi) ds b)
           = (if unrefused 5 (refusals b)
              then Succeeded (noteOf cfg None ds nt,
                     int (length (if fs = ds then withoutIndex fi (step_notices fromStep)
                                  else step_notices destStep)))
              else Failed ''repository_service_not_found'' ''Repository service is not found.'')"
    using o h by blast
  show "testSteps (snd (moveNotice cfg t (fs, fi) ds b))
           = (if \<not> unrefused 2 (refusals b) then testSteps b
              else if \<not> unrefused 4 (refusals b)
              then (testSteps b)((t, fs) \<mapsto> fromStep\<lparr>step_notices := withoutIndex fi (step_notices fromStep)\<rparr>)
              else (testSteps b)
                     ((t, fs) \<mapsto> fromStep\<lparr>step_notices := withoutIndex fi (step_notices fromStep)\<rparr>,
                      (t, ds) \<mapsto> destStep\<lparr>step_notices :=
                         (if fs = ds then withoutIndex fi (step_notices fromStep) else step_notices destStep)
                         @ [Some nid]\<rparr>))"
    using o h by blast
  show "noteStore (snd (moveNotice cfg t (fs, fi) ds b)) = noteStore b"
    using o h by blast
next
  assume h: "testSteps b (t, fs) = Some fromStep \<and> testSteps b (t, ds) = Some destStep
        \<and> step_intention fromStep = Some nid \<and> noteStore b (t, nid) = Some nt"
  note o = moveIntention_outcome [of b t fs fromStep ds destStep nid nt cfg]
  show "fst (moveIntention cfg t fs ds b)
           = (if unrefused 4 (refusals b) then Succeeded (noteOf cfg None ds nt)
              else Failed ''repository_service_not_found'' ''Repository service is not found.'')"
    using o h by blast
  show "testSteps (snd (moveIntention cfg t fs ds b))
           = (if \<not> unrefused 2 (refusals b) then testSteps b
              else if \<not> unrefused 3 (refusals b)
              then (testSteps b)((t, fs) \<mapsto> fromStep\<lparr>step_intention := None\<rparr>)
              else (testSteps b)
                     ((t, fs) \<mapsto> fromStep\<lparr>step_intention := None\<rparr>,
                      (t, ds) \<mapsto> destStep\<lparr>step_intention := Some nid\<rparr>))"
    using o h by blast
  show "noteStore (snd (moveIntention cfg t fs ds b)) = noteStore b"
    using o h by blast
qed


text \<open>
  The theorem at the sample service. Bug 7, notice 5 and intention 3 move from step 1 to
  step 2. With the second request refused the move of bug 7 fails and no link has
  changed; with the fifth refused it fails although the bug has been moved, while the
  move of the intention, which sends four requests, succeeds; with the third refused the
  intention is on neither step. Moved onto a step that holds intention 4, intention 3
  replaces it.
\<close>

theorem move_note_relinks_witness:
  "fst (moveBug sampleConfig ''r1'' (1, 0) 2 (sampleBackend [])) = Succeeded (sampleMoved 2, 0)
   \<and> bugsOf (snd (moveBug sampleConfig ''r1'' (1, 0) 2 (sampleBackend []))) ''r1'' 1 = Some [Some 8]
   \<and> bugsOf (snd (moveBug sampleConfig ''r1'' (1, 0) 2 (sampleBackend []))) ''r1'' 2 = Some [Some 7]
   \<and> fst (moveNotice sampleConfig ''r1'' (1, 0) 2 (sampleBackend [])) = Succeeded (sampleMoved 2, 0)
   \<and> noticesOf (snd (moveNotice sampleConfig ''r1'' (1, 0) 2 (sampleBackend []))) ''r1'' 1 = Some []
   \<and> noticesOf (snd (moveNotice sampleConfig ''r1'' (1, 0) 2 (sampleBackend []))) ''r1'' 2 = Some [Some 5]
   \<and> fst (moveIntention sampleConfig ''r1'' 1 2 (sampleBackend [])) = Succeeded (sampleMoved 2)
   \<and> intentionOf (snd (moveIntention sampleConfig ''r1'' 1 2 (sampleBackend []))) ''r1'' 1 = Some None
   \<and> intentionOf (snd (moveIntention sampleConfig ''r1'' 1 2 (sampleBackend []))) ''r1'' 2 = Some (Some 3)
   \<and> fst (moveBug sampleConfig ''r1'' (1, 0) 2 (sampleBackend [False, True]))
       = Failed ''repository_service_not_found'' ''Repository service is not found.''
   \<and> testSteps (snd (moveBug sampleConfig ''r1'' (1, 0) 2 (sampleBackend [False, True])))
       = testSteps (sampleBackend [False, True])
   \<and> fst (moveBug sampleConfig ''r1'' (1, 0) 2 (sampleBackend [False, False, False, False, True]))
       = Failed ''repository_service_not_found'' ''Repository service is not found.''
   \<and> bugsOf (snd (moveBug sampleConfig ''r1'' (1, 0) 2 (sampleBackend [False, False, False, False, True])))
        ''r1'' 1 = Some [Some 8]
   \<and> bugsOf (snd (moveBug sampleConfig ''r1'' (1, 0) 2 (sampleBackend [False, False, False, False, True])))
        ''r1'' 2 = Some [Some 7]
   \<and> fst (moveIntention sampleConfig ''r1'' 1 2 (sampleBackend [False, False, False, False, True]))
       = Succeeded (sampleMoved 2)
   \<and> fst (moveIntention sampleConfig ''r1'' 1 2 (sampleBackend [False, False, True]))
       = Failed ''repository_service_not_found'' ''Repository service is not found.''
   \<and> intentionOf (snd (moveIntention sampleConfig ''r1'' 1 2 (sampleBackend [False, False, True]))) ''r1'' 1
       = Some None
   \<and> intentionOf (snd (moveIntention sampleConfig ''r1'' 1 2 (sampleBackend [False, False, True]))) ''r1'' 2
       = Some None
   \<and> intentionOf (occupiedBackend []) ''r1'' 2 = Some (Some 4)
   \<and> fst (moveIntention sampleConfig ''r1'' 1 2 (occupiedBackend [])) = Succeeded (sampleMoved 2)
   \<and> intentionOf (snd (moveIntention sampleConfig ''r1'' 1 2 (occupiedBackend []))) ''r1'' 1 = Some None
   \<and> intentionOf (snd (moveIntention sampleConfig ''r1'' 1 2 (occupiedBackend []))) ''r1'' 2
       = Some (Some 3)"
proof -
  let ?b = "sampleBackend []"
  let ?step1 = "\<lparr> step_intention = Some 3, step_bugs = [Some 7, Some 8], step_notices = [Some 5] \<rparr>"
  let ?step2 = "\<lparr> step_intention = None, step_bugs = [], step_notices = [] \<rparr>"
  have pre: "bugsOf ?b ''r1'' 1 = Some [Some 7, Some 8]" "bugsOf ?b ''r1'' 2 = Some []"
    "noticesOf ?b ''r1'' 1 = Some [Some 5]" "noticesOf ?b ''r1'' 2 = Some []"
    "intentionOf ?b ''r1'' 1 = Some (Some 3)"
    by (simp_all add: bugsOf_def noticesOf_def intentionOf_def sampleBackend_def)
  have fb: "fst (moveBug sampleConfig ''r1'' (1, 0) 2 ?b) = Succeeded (sampleMoved 2, 0)"
    by code_simp
  have fn: "fst (moveNotice sampleConfig ''r1'' (1, 0) 2 ?b) = Succeeded (sampleMoved 2, 0)"
    by code_simp
  have fi: "fst (moveIntention sampleConfig ''r1'' 1 2 ?b) = Succeeded (sampleMoved 2)"
    by code_simp
  have hb: "moveBug sampleConfig ''r1'' (1, 0) 2 ?b
              = (Succeeded (sampleMoved 2, 0), snd (moveBug sampleConfig ''r1'' (1, 0) 2 ?b))"
    using fb by (simp add: prod_eq_iff)
  have hn: "moveNotice sampleConfig ''r1'' (1, 0) 2 ?b
              = (Succeeded (sampleMoved 2, 0), snd (moveNotice sampleConfig ''r1'' (1, 0) 2 ?b))"
    using fn by (simp add: prod_eq_iff)
  have hi: "moveIntention sampleConfig ''r1'' 1 2 ?b
              = (Succeeded (sampleMoved 2), snd (moveIntention sampleConfig ''r1'' 1 2 ?b))"
    using fi by (simp add: prod_eq_iff)
  note th = move_note_relinks
              [where cfg = sampleConfig and t = "''r1''" and fs = 1 and fi = 0 and ds = 2 and b = ?b
                 and n = "sampleMoved 2" and idx = 0 and m = "sampleMoved 2"]
  have b: "bugsOf (snd (moveBug sampleConfig ''r1'' (1, 0) 2 ?b)) ''r1'' 1 = Some [Some 8]
           \<and> bugsOf (snd (moveBug sampleConfig ''r1'' (1, 0) 2 ?b)) ''r1'' 2 = Some [Some 7]"
    using conjunct1 [OF th, rule_format, OF hb] pre by auto
  have n: "noticesOf (snd (moveNotice sampleConfig ''r1'' (1, 0) 2 ?b)) ''r1'' 1 = Some []
           \<and> noticesOf (snd (moveNotice sampleConfig ''r1'' (1, 0) 2 ?b)) ''r1'' 2 = Some [Some 5]"
    using conjunct1 [OF conjunct2 [OF th], rule_format, OF hn] pre by auto
  have i: "intentionOf (snd (moveIntention sampleConfig ''r1'' 1 2 ?b)) ''r1'' 1 = Some None
           \<and> intentionOf (snd (moveIntention sampleConfig ''r1'' 1 2 ?b)) ''r1'' 2 = Some (Some 3)"
    using conjunct1 [OF conjunct2 [OF conjunct2 [OF th]], rule_format, OF hi] pre by auto
  have st: "\<And>script. testSteps (sampleBackend script) (''r1'', 1) = Some ?step1"
    "\<And>script. testSteps (sampleBackend script) (''r1'', 2) = Some ?step2"
    "\<And>script. noteStore (sampleBackend script) (''r1'', 7) = Some (sampleNote 7 ''bug'')"
    "\<And>script. noteStore (sampleBackend script) (''r1'', 3) = Some (sampleNote 3 ''intention'')"
    "\<And>script. refusals (sampleBackend script) = script"
    by (simp_all add: sampleBackend_def)
  have a7: "at [Some 7, Some (8::nat)] 0 = Some 7" by (simp add: at_def)
  have u: "\<not> unrefused 2 [False, True]" "\<not> unrefused 4 [False, True]" "\<not> unrefused 5 [False, True]"
    "unrefused 2 [False, False, True]" "\<not> unrefused 3 [False, False, True]"
    "\<not> unrefused 4 [False, False, True]"
    "unrefused 4 [False, False, False, False, True]"
    by (simp_all add: eval_nat_numeral)
  have r2: "fst (moveBug sampleConfig ''r1'' (1, 0) 2 (sampleBackend [False, True]))
              = Failed ''repository_service_not_found'' ''Repository service is not found.''
            \<and> testSteps (snd (moveBug sampleConfig ''r1'' (1, 0) 2 (sampleBackend [False, True])))
              = testSteps (sampleBackend [False, True])"
    using conjunct1 [OF conjunct2 [OF conjunct2 [OF conjunct2
            [OF move_note_relinks
               [where b = "sampleBackend [False, True]" and t = "''r1''" and fs = 1 and ds = 2
                  and fi = 0 and nid = 7 and nt = "sampleNote 7 ''bug''" and cfg = sampleConfig
                  and fromStep = ?step1 and destStep = ?step2]]]]]
          st a7 u
    by simp
  have m: "noteOf sampleConfig None 2 (sampleNote 3 ''intention'') = sampleMoved 2"
    by (simp add: noteOf_def sampleNote_def sampleMoved_def imageUrlOrEmpty_def truthy_def)
  have r4: "fst (moveIntention sampleConfig ''r1'' 1 2 (sampleBackend [False, False, False, False, True]))
              = Succeeded (sampleMoved 2)"
    using conjunct2 [OF conjunct2 [OF conjunct2 [OF conjunct2 [OF conjunct2
            [OF move_note_relinks
               [where b = "sampleBackend [False, False, False, False, True]" and t = "''r1''"
                  and fs = 1 and ds = 2 and nid = 3 and nt = "sampleNote 3 ''intention''"
                  and cfg = sampleConfig and fromStep = ?step1 and destStep = ?step2]]]]]]
          st u m
    by simp
  have r3: "fst (moveIntention sampleConfig ''r1'' 1 2 (sampleBackend [False, False, True]))
              = Failed ''repository_service_not_found'' ''Repository service is not found.''"
    using conjunct2 [OF conjunct2 [OF conjunct2 [OF conjunct2 [OF conjunct2
            [OF move_note_relinks
               [where b = "sampleBackend [False, False, True]" and t = "''r1''"
                  and fs = 1 and ds = 2 and nid = 3 and nt = "sampleNote 3 ''intention''"
                  and cfg = sampleConfig and fromStep = ?step1 and destStep = ?step2]]]]]]
          st u
    by simp
  have c5: "fst (moveBug sampleConfig ''r1'' (1, 0) 2 (sampleBackend [False, False, False, False, True]))
       = Failed ''repository_service_not_found'' ''Repository service is not found.''
   \<and> bugsOf (snd (moveBug sampleConfig ''r1'' (1, 0) 2 (sampleBackend [False, False, False, False, True])))
        ''r1'' 1 = Some [Some 8]
   \<and> bugsOf (snd (moveBug sampleConfig ''r1'' (1, 0) 2 (sampleBackend [False, False, False, False, True])))
        ''r1'' 2 = Some [Some 7]"
    by code_simp
  have c3: "intentionOf (snd (moveIntention sampleConfig ''r1'' 1 2 (sampleBackend [False, False, True]))) ''r1'' 1
       = Some None
   \<and> intentionOf (snd (moveIntention sampleConfig ''r1'' 1 2 (sampleBackend [False, False, True]))) ''r1'' 2
       = Some None"
    by code_simp
  have oc: "intentionOf (occupiedBackend []) ''r1'' 2 = Some (Some 4)
   \<and> fst (moveIntention sampleConfig ''r1'' 1 2 (occupiedBackend [])) = Succeeded (sampleMoved 2)
   \<and> intentionOf (snd (moveIntention sampleConfig ''r1'' 1 2 (occupiedBackend []))) ''r1'' 1 = Some None
   \<and> intentionOf (snd (moveIntention sampleConfig ''r1'' 1 2 (occupiedBackend []))) ''r1'' 2
       = Some (Some 3)"
    by code_simp
  show ?thesis using fb fn fi b n i r2 r3 r4 c5 c3 oc by blast
qed


text \<open>
  Claim C1 as stated fails: when the fourth request of \<open>moveBug\<close> (the link to the
  destination) is refused, the reply is a failure and bug 7, attached to step 1 before,
  is attached to neither of the two steps.
\<close>

theorem moveBug_partial_move_counterexample:
  "bugsOf (sampleBackend [False, False, False, True]) ''r1'' 1 = Some [Some 7, Some 8]
   \<and> bugsOf (sampleBackend [False, False, False, True]) ''r1'' 2 = Some []
   \<and> fst (moveBug sampleConfig ''r1'' (1, 0) 2 (sampleBackend [False, False, False, True]))
       = Failed ''repository_service_not_found'' ''Repository service is not found.''
   \<and> bugsOf (snd (moveBug sampleConfig ''r1'' (1, 0) 2 (sampleBackend [False, False, False, True]))) ''r1'' 1
       = Some [Some 8]
   \<and> bugsOf (snd (moveBug sampleConfig ''r1'' (1, 0) 2 (sampleBackend [False, False, False, True]))) ''r1'' 2
       = Some []"
  by code_simp

section \<open>Reading a project\<close>

lemma find_known:
  "x \<in> pj_id ` set ps \<Longrightarrow> \<exists>p. find (\<lambda>q. pj_id q = x) ps = Some p"
  by (cases "find (\<lambda>q. pj_id q = x) ps") (auto simp: find_None_iff)

lemma find_append_case:
  "find P (xs @ ys) = (case find P xs of None \<Rightarrow> find P ys | Some x \<Rightarrow> Some x)"
  by (induction xs) auto

lemma find_created:
  "\<exists>p. find (\<lambda>q. pj_id q = pj_id c) (ps @ [c]) = Some p \<and> (pj_id c \<in> pj_id ` set ps \<or> p = c)"
proof (cases "find (\<lambda>q. pj_id q = pj_id c) ps")
  case None
  then have "pj_id c \<notin> pj_id ` set ps" by (auto simp: find_None_iff)
  then show ?thesis using None by (simp add: find_append_case)
next
  case (Some p)
  then have "pj_id c \<in> pj_id ` set ps"
    by (metis (mono_tags, lifting) find_Some_iff image_eqI nth_mem)
  then show ?thesis using Some by (simp add: find_append_case)
qed

lemma httpGetProjects_run:
  "httpGetProjects b = (if accepted b then (Inr (projects b), served b) else (Inl TransportError, served b))"
  by (simp add: httpGetProjects_def request_accepted request_refused)

lemma httpPostProject_run:
  "httpPostProject name b =
     (if accepted b
      then (Inr \<lparr> pj_id = projectIdOf b (nextProject b), pj_name = name, pj_body = JObj [] \<rparr>,
            (served b)\<lparr>projects := projects b
                          @ [\<lparr> pj_id = projectIdOf b (nextProject b), pj_name = name, pj_body = JObj [] \<rparr>],
                        nextProject := nextProject b + 1\<rparr>)
      else (Inl TransportError, served b))"
  by (simp add: httpPostProject_def request_accepted request_refused Let_def)

lemma httpGetProject_run:
  "httpGetProject x b =
     (if accepted b
      then (case find (\<lambda>p. pj_id p = x) (projects b) of
              None \<Rightarrow> (Inl (StatusError 404), served b)
            | Some p \<Rightarrow> (Inr p, served b))
      else (Inl TransportError, served b))"
  by (simp add: httpGetProject_def request_accepted request_refused split: option.splits)

lemma readProject_known:
  assumes "projectId \<in> pj_id ` set (projects b)"
  shows "if unrefused 2 (refusals b)
         then \<exists>p b'. readProject projectId b = (Succeeded p, b')
                \<and> find (\<lambda>q. pj_id q = projectId) (projects b) = Some p \<and> projects b' = projects b
         else fst (readProject projectId b) = Failed ''code'' ''error''"
proof -
  obtain p where p: "find (\<lambda>q. pj_id q = projectId) (projects b) = Some p"
    using find_known [OF assms] by blast
  have k: "projectId \<in> pj_id ` set (projects b)" by (rule assms)
  show ?thesis
    unfolding unrefused_2 readProject_def catchReply_def thenR_def returnR_def
    using p k
    by (simp add: httpGetProjects_run httpGetProject_run accepted_def)
qed

lemma readProject_unknown:
  assumes "projectId \<notin> pj_id ` set (projects b)"
  shows "if unrefused 3 (refusals b)
         then \<exists>p b'. readProject projectId b = (Succeeded p, b')
                \<and> projects b' = projects b
                     @ [\<lparr> pj_id = projectIdOf b (nextProject b), pj_name = [], pj_body = JObj [] \<rparr>]
                \<and> find (\<lambda>q. pj_id q = projectIdOf b (nextProject b))
                     (projects b @ [\<lparr> pj_id = projectIdOf b (nextProject b), pj_name = [], pj_body = JObj [] \<rparr>])
                    = Some p
                \<and> (projectIdOf b (nextProject b) \<in> pj_id ` set (projects b)
                     \<or> p = \<lparr> pj_id = projectIdOf b (nextProject b), pj_name = [], pj_body = JObj [] \<rparr>)
         else fst (readProject projectId b) = Failed ''code'' ''error''"
proof -
  let ?c = "\<lparr> pj_id = projectIdOf b (nextProject b), pj_name = [], pj_body = JObj [] \<rparr>"
  obtain p where p: "find (\<lambda>q. pj_id q = pj_id ?c) (projects b @ [?c]) = Some p"
    and pc: "pj_id ?c \<in> pj_id ` set (projects b) \<or> p = ?c"
    using find_created [of ?c "projects b"] by blast
  have k: "projectId \<notin> pj_id ` set (projects b)" by (rule assms)
  show ?thesis
    unfolding unrefused_3 readProject_def catchReply_def thenR_def returnR_def
    using p pc k
    by (simp add: httpGetProjects_run httpGetProject_run httpPostProject_run accepted_def)
qed

text \<open>
  Claim C9. \<open>readProject\<close> fails exactly when one of the requests it makes is refused: two
  requests for an identifier in the service's project list, three otherwise. For a
  listed identifier it returns the project of that identifier and creates nothing. For
  an unlisted identifier it first posts a project with the empty name, which the service
  appends to its list, and returns what the service holds under the identifier of the
  created project; that is the created project itself whenever the service assigned an
  identifier that was not in use.
\<close>

theorem readProject_unknown_id_creates:
  "if unrefused (if projectId \<in> pj_id ` set (projects b) then 2 else 3) (refusals b)
   then \<exists>p b'. readProject projectId b = (Succeeded p, b')
          \<and> (if projectId \<in> pj_id ` set (projects b)
              then find (\<lambda>q. pj_id q = projectId) (projects b) = Some p \<and> projects b' = projects b
              else projects b' = projects b
                     @ [\<lparr> pj_id = projectIdOf b (nextProject b), pj_name = [], pj_body = JObj [] \<rparr>]
                   \<and> find (\<lambda>q. pj_id q = projectIdOf b (nextProject b))
                       (projects b @ [\<lparr> pj_id = projectIdOf b (nextProject b), pj_name = [],
                                        pj_body = JObj [] \<rparr>])
                      = Some p
                   \<and> (projectIdOf b (nextProject b) \<in> pj_id ` set (projects b)
                        \<or> p = \<lparr> pj_id = projectIdOf b (nextProject b), pj_name = [],
                                 pj_body = JObj [] \<rparr>))
   else fst (readProject projectId b) = Failed ''code'' ''error''"
proof (cases "projectId \<in> pj_id ` set (projects b)")
  case True
  show ?thesis using readProject_known [OF True] True by (simp split: if_splits)
next
  case False
  show ?thesis using readProject_unknown [OF False] False by (simp split: if_splits)
qed

text \<open>
  The theorem at the sample service: an unknown identifier yields the new project
  \<open>p2\<close>, a known one the stored project, and a refused second request a failure.
\<close>

theorem readProject_unknown_id_creates_witness:
  "fst (readProject ''missing'' (sampleBackend []))
     = Succeeded \<lparr> pj_id = ''p2'', pj_name = [], pj_body = JObj [] \<rparr>
   \<and> projects (snd (readProject ''missing'' (sampleBackend [])))
     = [\<lparr> pj_id = ''p1'', pj_name = ''demo'', pj_body = JObj [] \<rparr>,
        \<lparr> pj_id = ''p2'', pj_name = [], pj_body = JObj [] \<rparr>]
   \<and> fst (readProject ''p1'' (sampleBackend []))
     = Succeeded \<lparr> pj_id = ''p1'', pj_name = ''demo'', pj_body = JObj [] \<rparr>
   \<and> fst (readProject ''missing'' (sampleBackend [False, True])) = Failed ''code'' ''error''"
proof -
  let ?b = "sampleBackend []"
  have id: "projectIdOf ?b (nextProject ?b) = ''p2''"
    by code_simp
  have ps: "projects ?b = [\<lparr> pj_id = ''p1'', pj_name = ''demo'', pj_body = JObj [] \<rparr>]"
    "refusals ?b = []"
    by (simp_all add: sampleBackend_def)
  have 1: "fst (readProject ''missing'' ?b) = Succeeded \<lparr> pj_id = ''p2'', pj_name = [], pj_body = JObj [] \<rparr>
       \<and> projects (snd (readProject ''missing'' ?b))
           = [\<lparr> pj_id = ''p1'', pj_name = ''demo'', pj_body = JObj [] \<rparr>,
              \<lparr> pj_id = ''p2'', pj_name = [], pj_body = JObj [] \<rparr>]"
    using readProject_unknown_id_creates [of "''missing''" ?b] by (auto simp: id ps)
  have 2: "fst (readProject ''p1'' ?b) = Succeeded \<lparr> pj_id = ''p1'', pj_name = ''demo'', pj_body = JObj [] \<rparr>"
    using readProject_unknown_id_creates [of "''p1''" ?b] by (auto simp: ps)
  have 3: "fst (readProject ''missing'' (sampleBackend [False, True])) = Failed ''code'' ''error''"
    using readProject_unknown_id_creates [of "''missing''" "sampleBackend [False, True]"]
    by (simp add: sampleBackend_def eval_nat_numeral)
  show ?thesis using 1 2 3 by blast
qed

section \<open>Image compression runs after the commit and changes image paths only\<close>




















section \<open>Editing a note without leaving its test step\<close>

text \<open>
  Claim C4 at an edit of the first of two bugs that keeps it on step 1: \<open>saveBug\<close>
  resolves and the service's bug list of the step has changed its order from 7, 8 to
  8, 7. The same edit of a notice through \<open>saveNotice\<close>, which skips the move when the
  sequence number stays the same, leaves the notice list 5, 6 as it was; the dispatcher's
  \<open>moveNotice\<close> itself, called for the same step, would reorder it too.
\<close>

theorem saveBug_same_step_reorders:
  "bugsOf (service sampleWorld) ''r1'' 1 = Some [Some 7, Some 8]
   \<and> fst (saveBug sampleEnv sameStepEdit sampleWorld) = Resolved
   \<and> bugsOf (service (snd (saveBug sampleEnv sameStepEdit sampleWorld))) ''r1'' 1
       = Some [Some 8, Some 7]
   \<and> noticesOf (service sampleWorld) ''r1'' 1 = Some [Some 5, Some 6]
   \<and> fst (saveNotice sampleEnv sameStepEdit sampleWorld) = Resolved
   \<and> noticesOf (service (snd (saveNotice sampleEnv sameStepEdit sampleWorld))) ''r1'' 1
       = Some [Some 5, Some 6]
   \<and> noticesOf (snd (moveNotice sampleConfig ''r1'' (1, 0) 1 (service sampleWorld))) ''r1'' 1
       = Some [Some 6, Some 5]"
  by code_simp

end
